theory Spec2Isabelle
  imports Main
begin

section \<open>Jobs, errors and promises\<close>

text \<open>
  \<^verbatim>\<open>IJobData\<close> of \<^verbatim>\<open>interfaces/queue.interface.ts\<close>: the identity, the payload and
  the group name of a job. The payload has TypeScript type \<^verbatim>\<open>any\<close>; it is the type
  variable \<open>'a\<close> here. Job identities (\<^verbatim>\<open>string | number\<close>) are natural numbers.
\<close>

record 'a IJobData =
  job_id :: nat
  job_data :: 'a
  job_groupName :: string

text \<open>Everything the TypeScript code can throw, as values.\<close>

datatype error =
    ConsumerBusy string     \<comment> \<open>\<^verbatim>\<open>Consumer for queue ... is already running.\<close>\<close>
  | CallbackError string    \<comment> \<open>the error handed to \<^verbatim>\<open>done(err)\<close>\<close>
  | PoolError               \<comment> \<open>\<^verbatim>\<open>pool.acquire()\<close> rejected\<close>
  | RedisError              \<comment> \<open>a store command or a publish rejected\<close>
  | NotSubscriber           \<comment> \<open>\<^verbatim>\<open>Only subscriber instances can process jobs\<close>\<close>
  | ProcessorExists string  \<comment> \<open>\<^verbatim>\<open>A processor for queue '...' already exists\<close>\<close>

text \<open>
  The state of an awaited promise at the moment control comes back to the caller:
  resolved, rejected, or still pending (the callee has not settled it).
\<close>

datatype 'r promise = Resolved 'r | Rejected error | Pending

section \<open>Consumer (\<^verbatim>\<open>consumer.ts\<close>)\<close>

datatype cstatus = SLEEPING | RUNNING

text \<open>
  What the user's processing callback does with its \<^verbatim>\<open>done\<close> argument: it calls
  \<^verbatim>\<open>done()\<close>, calls \<^verbatim>\<open>done(err)\<close> (or throws inside the promise executor, which rejects
  the same promise), or never signals completion.
\<close>

datatype completion = Done "string option" | Never

text \<open>
  The fields of the class that the code reads, and two ghost fields: \<open>handled\<close> lists
  the jobs the callback was invoked with, oldest first; \<open>in_flight\<close> lists the jobs
  whose \<^verbatim>\<open>process\<close> call has started and not yet completed.
\<close>

record 'a Consumer =
  status :: cstatus
  queueName :: string
  callback :: "'a IJobData \<Rightarrow> completion"
  handled :: "'a IJobData list"
  in_flight :: "'a IJobData list"

definition new_Consumer :: "string \<Rightarrow> ('a IJobData \<Rightarrow> completion) \<Rightarrow> 'a Consumer" where
  "new_Consumer qn cb =
     \<lparr>status = SLEEPING, queueName = qn, callback = cb, handled = [], in_flight = []\<rparr>"

text \<open>
  \<^verbatim>\<open>Consumer.process\<close> up to the \<^verbatim>\<open>await\<close>: the busy check, the switch to RUNNING, and
  the invocation of the callback inside the promise executor.
\<close>

definition process_begin :: "'a Consumer \<Rightarrow> 'a IJobData \<Rightarrow> error + 'a Consumer" where
  "process_begin c job =
     (if status c = RUNNING then Inl (ConsumerBusy (queueName c))
      else Inr (c\<lparr>status := RUNNING,
                   handled := handled c @ [job],
                   in_flight := in_flight c @ [job]\<rparr>))"

text \<open>
  \<^verbatim>\<open>Consumer.process\<close> after the completion signal: the error is logged and thrown
  again, and the \<^verbatim>\<open>finally\<close> block puts the consumer back to SLEEPING.
\<close>

definition process_finish ::
  "'a Consumer \<Rightarrow> 'a IJobData \<Rightarrow> string option \<Rightarrow> unit promise \<times> 'a Consumer" where
  "process_finish c job r =
     ((case r of None \<Rightarrow> Resolved () | Some m \<Rightarrow> Rejected (CallbackError m)),
      c\<lparr>status := SLEEPING, in_flight := remove1 job (in_flight c)\<rparr>)"

text \<open>The whole call, as far as it gets before control returns to the caller.\<close>

definition Consumer_process :: "'a Consumer \<Rightarrow> 'a IJobData \<Rightarrow> unit promise \<times> 'a Consumer" where
  "Consumer_process c job =
     (case process_begin c job of
        Inl e \<Rightarrow> (Rejected e, c)
      | Inr c1 \<Rightarrow>
          (case callback c job of
             Never \<Rightarrow> (Pending, c1)
           | Done r \<Rightarrow> process_finish c1 job r))"

text \<open>
  The states a consumer can be in: a new consumer, then any number of dispatches and
  completions; a call completes only for a job it was started with.
\<close>

inductive consumer_state :: "'a Consumer \<Rightarrow> bool" where
  fresh: "consumer_state (new_Consumer qn cb)"
| dispatch: "consumer_state c \<Longrightarrow> process_begin c job = Inr c' \<Longrightarrow> consumer_state c'"
| complete: "consumer_state c \<Longrightarrow> job \<in> set (in_flight c) \<Longrightarrow>
             consumer_state (snd (process_finish c job r))"

section \<open>The store and its atomic scripts\<close>

text \<open>
  Modelled from the spec: the key-value store is outside the repository, and the four
  Lua scripts of \<^verbatim>\<open>src/scripts/*.lua\<close>, which alone say what is stored, are missing from
  the sources. The store holds what sections 3 and 6 of the specification list: per
  queue an index of group keys (a set), per group an ordered collection of job
  identities keyed by \<open>(priority, notBefore)\<close>, and per job its record with the fields
  of section 3. Times are epoch milliseconds.
\<close>

type_synonym key = string

datatype JobStatus = Queued | Processing | Completed | Failed

record job_record =
  j_payload :: string
  j_groupName :: string
  j_priority :: int
  j_notBefore :: int
  j_expiresAt :: "int option"
  j_status :: JobStatus

datatype script = Enqueue | Dequeue | Get_status | Update_status

text \<open>
  A script handle is the SHA1 digest of the script text. A digest is never the empty
  string, so a handle is always truthy in the \<^verbatim>\<open>if (!scriptSha)\<close> tests.
\<close>

datatype sha = Digest string

type_synonym zentry = "(int \<times> int) \<times> nat"

record store =
  r_sets :: "key \<Rightarrow> string list"
  r_zsets :: "key \<Rightarrow> zentry list"
  r_jobs :: "nat \<Rightarrow> job_record option"
  r_next_id :: nat
  r_scripts :: "sha \<Rightarrow> script option"

definition empty_store :: store where
  "empty_store = \<lparr>r_sets = (\<lambda>_. []), r_zsets = (\<lambda>_. []), r_jobs = (\<lambda>_. None),
                   r_next_id = 1, r_scripts = (\<lambda>_. None)\<rparr>"

text \<open>Arguments and replies of a script invocation.\<close>

datatype arg = Str string | Num int | Ident nat | Stat JobStatus

datatype reply =
    Nil_reply
  | Id_reply nat
  | Job_reply nat string string
  | Status_reply JobStatus
  | Ok_reply

text \<open>
  Modelled from the spec: the order of a group's collection (sections 3 and 4.2) is
  \<open>(priority, notBefore)\<close> ascending, lower priority value first, then earlier
  eligibility. A new entry goes behind the entries it does not sort before.
\<close>

definition sorts_before :: "int \<times> int \<Rightarrow> int \<times> int \<Rightarrow> bool" where
  "sorts_before a b = (fst a < fst b \<or> (fst a = fst b \<and> snd a < snd b))"

fun zinsert :: "zentry \<Rightarrow> zentry list \<Rightarrow> zentry list" where
  "zinsert e [] = [e]"
| "zinsert e (x # xs) =
     (if sorts_before (fst e) (fst x) then e # x # xs else x # zinsert e xs)"

text \<open>
  Modelled from the spec: adding a group to the index has no effect if it is already
  present (section 4.2, step 4).
\<close>

definition sadd :: "string \<Rightarrow> string list \<Rightarrow> string list" where
  "sadd m ms = (if m \<in> set ms then ms else ms @ [m])"

text \<open>
  Modelled from the spec: \<^verbatim>\<open>scripts/enqueue.lua\<close> is missing from the sources. Section 4.2:
  generate a new job identity; \<open>notBefore = now + delay\<close>; \<open>expiresAt = now + ttl\<close> if
  \<open>ttl > 0\<close>, else unset; insert the job into the group's ordered collection, lower
  priority value first and earlier \<open>notBefore\<close> first within equal priority; add the
  group identifier to the queue's group index (no effect if already present); return
  the new identity. The job starts in status \<open>queued\<close> (section 3). The group
  identifier put into the index is the group key, since the sweep uses the members of
  the index as keys.
\<close>

definition enqueue_script ::
  "int \<Rightarrow> store \<Rightarrow> key \<Rightarrow> key \<Rightarrow> string \<Rightarrow> string \<Rightarrow> int \<Rightarrow> int \<Rightarrow> int \<Rightarrow> reply \<times> store" where
  "enqueue_script t s groupsIndexKey groupKey payload groupName prio dly life =
     (let jid = r_next_id s;
          notBefore = t + dly;
          expiresAt = (if life > 0 then Some (t + life) else None);
          job = \<lparr>j_payload = payload, j_groupName = groupName, j_priority = prio,
                 j_notBefore = notBefore, j_expiresAt = expiresAt, j_status = Queued\<rparr>
      in (Id_reply jid,
          s\<lparr>r_sets := (r_sets s)(groupsIndexKey := sadd groupKey (r_sets s groupsIndexKey)),
            r_zsets := (r_zsets s)(groupKey := zinsert ((prio, notBefore), jid) (r_zsets s groupKey)),
            r_jobs := (r_jobs s)(jid := Some job),
            r_next_id := Suc jid\<rparr>))"

text \<open>
  Modelled from the spec: a job has expired when its \<open>expiresAt\<close> is set and has elapsed
  (sections 3 and 4.3).
\<close>

definition expired :: "int \<Rightarrow> job_record \<Rightarrow> bool" where
  "expired t j = (case j_expiresAt j of None \<Rightarrow> False | Some x \<Rightarrow> x \<le> t)"

text \<open>
  Modelled from the spec: \<^verbatim>\<open>scripts/dequeue.lua\<close> is missing from the sources. Section 4.3:
  an empty collection yields nothing; if the best-ranked entry is not yet eligible
  (future \<open>notBefore\<close>) the group yields nothing; otherwise the entry is popped; a popped
  job whose \<open>expiresAt\<close> has elapsed is marked failed and not delivered (of the two
  behaviours the section allows, the pop then waits for the next sweep); otherwise the
  job is marked \<open>processing\<close> and returned as \<open>[jobId, payloadJson, groupName]\<close>.
\<close>

definition dequeue_script :: "int \<Rightarrow> store \<Rightarrow> key \<Rightarrow> reply \<times> store" where
  "dequeue_script t s groupKey =
     (case r_zsets s groupKey of
        [] \<Rightarrow> (Nil_reply, s)
      | e # rest \<Rightarrow>
          (if t < snd (fst e) then (Nil_reply, s)
           else
             (let s1 = s\<lparr>r_zsets := (r_zsets s)(groupKey := rest)\<rparr>; jid = snd e
              in (case r_jobs s jid of
                    None \<Rightarrow> (Nil_reply, s1)
                  | Some j \<Rightarrow>
                      (if expired t j
                       then (Nil_reply,
                             s1\<lparr>r_jobs := (r_jobs s)(jid := Some (j\<lparr>j_status := Failed\<rparr>))\<rparr>)
                       else (Job_reply jid (j_payload j) (j_groupName j),
                             s1\<lparr>r_jobs := (r_jobs s)(jid := Some (j\<lparr>j_status := Processing\<rparr>))\<rparr>))))))"

text \<open>
  Modelled from the spec: \<^verbatim>\<open>scripts/get_status.lua\<close> is missing from the sources.
  Section 6: \<open>get_status(jobId) \<rightarrow> status\<close>.
\<close>

definition get_status_script :: "store \<Rightarrow> nat \<Rightarrow> reply \<times> store" where
  "get_status_script s jid =
     (case r_jobs s jid of None \<Rightarrow> (Nil_reply, s) | Some j \<Rightarrow> (Status_reply (j_status j), s))"

text \<open>
  Modelled from the spec: \<^verbatim>\<open>scripts/update_status.lua\<close> is missing from the sources.
  Section 6: \<open>update_status(jobId, status) \<rightarrow> ack\<close>.
\<close>

definition update_status_script :: "store \<Rightarrow> nat \<Rightarrow> JobStatus \<Rightarrow> reply \<times> store" where
  "update_status_script s jid st =
     (case r_jobs s jid of
        None \<Rightarrow> (Nil_reply, s)
      | Some j \<Rightarrow> (Ok_reply, s\<lparr>r_jobs := (r_jobs s)(jid := Some (j\<lparr>j_status := st\<rparr>))\<rparr>))"

text \<open>
  Modelled from the spec: the contracts of section 6 give each script its keys and
  arguments. A script runs as one indivisible step (glossary, atomic script); a call
  whose keys or arguments do not fit the script raises and leaves the store as it was.
\<close>

definition run_script :: "script \<Rightarrow> int \<Rightarrow> store \<Rightarrow> key list \<Rightarrow> arg list \<Rightarrow> (reply \<times> store) option" where
  "run_script sc t s ks as =
     (case sc of
        Enqueue \<Rightarrow>
          (case (ks, as) of
             ([gik, gk], [Str payload, Str gn, Num p, Num d, Num life]) \<Rightarrow>
               Some (enqueue_script t s gik gk payload gn p d life)
           | _ \<Rightarrow> None)
      | Dequeue \<Rightarrow>
          (case (ks, as) of
             ([gk], []) \<Rightarrow> Some (dequeue_script t s gk)
           | _ \<Rightarrow> None)
      | Get_status \<Rightarrow>
          (case (ks, as) of
             ([], [Ident jid]) \<Rightarrow> Some (get_status_script s jid)
           | _ \<Rightarrow> None)
      | Update_status \<Rightarrow>
          (case (ks, as) of
             ([], [Ident jid, Stat st]) \<Rightarrow> Some (update_status_script s jid st)
           | _ \<Rightarrow> None))"

section \<open>The world outside the process\<close>

text \<open>
  A notification on the channel: the JSON text of \<^verbatim>\<open>{queueName, groupName}\<close>, or any other
  text (on which \<^verbatim>\<open>JSON.parse\<close> throws or yields no queue name).
\<close>

datatype message = JobInfo string string | Other_text string

text \<open>The requests the process sends out: to the connection pool and to the store.\<close>

datatype request =
    ACQUIRE
  | SCRIPT_LOAD string
  | SMEMBERS key
  | ZCARD key
  | SREM key string
  | EVALSHA sha "key list" "arg list"
  | PUBLISH string message

text \<open>
  The world: the store, its clock, and the list of all requests sent so far (a ghost
  field, oldest first).
\<close>

record world =
  redis :: store
  now :: int
  trace :: "request list"

text \<open>
  What the code takes from its environment: the file system (\<open>None\<close> is an I/O error of
  \<^verbatim>\<open>fs.readFile\<close>), which requests fail (by their position in the trace), the digest
  function, which script a source text is (\<open>None\<close>: it does not compile), and
  \<^verbatim>\<open>JSON.stringify\<close> (\<open>None\<close>: it throws) and \<^verbatim>\<open>JSON.parse\<close> (\<open>None\<close>: it throws) on payloads.

  A sweep is suspended at every \<^verbatim>\<open>await\<close>, and the rest of the world goes on before its
  next request is answered: the other clients of the store and the other tasks of this
  process send their own commands, time passes, and the other sweeps of this process,
  which share the \<^verbatim>\<open>Consumer\<close> object, dispatch to it. The last three fields say, by the
  position in the trace of the request the sweep sends next, what the store has become
  in the meantime, how many milliseconds have passed, and which status the shared
  consumer has when the sweep reads it.
\<close>

record 'a env =
  readFile :: "string \<Rightarrow> string option"
  fault :: "nat \<Rightarrow> bool"
  SHA1 :: "string \<Rightarrow> sha"
  lua_compile :: "string \<Rightarrow> script option"
  JSON_stringify :: "'a \<Rightarrow> string option"
  JSON_parse :: "string \<Rightarrow> 'a option"
  meanwhile :: "nat \<Rightarrow> store \<Rightarrow> store"
  elapse :: "nat \<Rightarrow> nat"
  shared_status :: "nat \<Rightarrow> cstatus \<Rightarrow> cstatus"

text \<open>Sending a request: it is recorded, and the environment decides whether it fails.\<close>

definition issue :: "'a env \<Rightarrow> world \<Rightarrow> request \<Rightarrow> bool \<times> world" where
  "issue env w r = (fault env (length (trace w)), w\<lparr>trace := trace w @ [r]\<rparr>)"

text \<open>
  The world a suspended sweep finds when its next request is answered: the store as the
  others have left it, and the clock advanced.
\<close>

definition await :: "'a env \<Rightarrow> world \<Rightarrow> world" where
  "await env w =
     w\<lparr>redis := meanwhile env (length (trace w)) (redis w),
       now := now w + int (elapse env (length (trace w)))\<rparr>"

text \<open>
  The consumer object as a sweep finds it after its last request: its status is the one
  the other sweeps of the process have left. The ghost fields keep recording only what
  the calls followed here do.
\<close>

definition resume :: "'a env \<Rightarrow> world \<Rightarrow> 'a Consumer \<Rightarrow> 'a Consumer" where
  "resume env w consumer =
     consumer\<lparr>status := shared_status env (length (trace w)) (status consumer)\<rparr>"

text \<open>A set is kept as the list of its members; \<^verbatim>\<open>SMEMBERS\<close> replies with each member once.\<close>

definition smembers :: "'a env \<Rightarrow> world \<Rightarrow> key \<Rightarrow> (error + string list) \<times> world" where
  "smembers env w k =
     (case issue env w (SMEMBERS k) of
        (True, w1) \<Rightarrow> (Inl RedisError, w1)
      | (False, w1) \<Rightarrow> (Inr (remdups (r_sets (redis w1) k)), w1))"

definition zcard :: "'a env \<Rightarrow> world \<Rightarrow> key \<Rightarrow> (error + nat) \<times> world" where
  "zcard env w k =
     (case issue env w (ZCARD k) of
        (True, w1) \<Rightarrow> (Inl RedisError, w1)
      | (False, w1) \<Rightarrow> (Inr (length (r_zsets (redis w1) k)), w1))"

definition srem :: "'a env \<Rightarrow> world \<Rightarrow> key \<Rightarrow> string \<Rightarrow> (error + unit) \<times> world" where
  "srem env w k m =
     (case issue env w (SREM k m) of
        (True, w1) \<Rightarrow> (Inl RedisError, w1)
      | (False, w1) \<Rightarrow>
          (Inr (), w1\<lparr>redis := (redis w1)\<lparr>r_sets := (r_sets (redis w1))(k := removeAll m (r_sets (redis w1) k))\<rparr>\<rparr>))"

definition script_load :: "'a env \<Rightarrow> world \<Rightarrow> string \<Rightarrow> (error + sha) \<times> world" where
  "script_load env w text =
     (case issue env w (SCRIPT_LOAD text) of
        (True, w1) \<Rightarrow> (Inl RedisError, w1)
      | (False, w1) \<Rightarrow>
          (case lua_compile env text of
             None \<Rightarrow> (Inl RedisError, w1)
           | Some sc \<Rightarrow>
               (Inr (SHA1 env text),
                w1\<lparr>redis := (redis w1)\<lparr>r_scripts := (r_scripts (redis w1))(SHA1 env text := Some sc)\<rparr>\<rparr>)))"

definition evalsha :: "'a env \<Rightarrow> world \<Rightarrow> sha \<Rightarrow> key list \<Rightarrow> arg list \<Rightarrow> (error + reply) \<times> world" where
  "evalsha env w h ks as =
     (case issue env w (EVALSHA h ks as) of
        (True, w1) \<Rightarrow> (Inl RedisError, w1)
      | (False, w1) \<Rightarrow>
          (case r_scripts (redis w1) h of
             None \<Rightarrow> (Inl RedisError, w1)
           | Some sc \<Rightarrow>
               (case run_script sc (now w1) (redis w1) ks as of
                  None \<Rightarrow> (Inl RedisError, w1)
                | Some (rep, s') \<Rightarrow> (Inr rep, w1\<lparr>redis := s'\<rparr>))))"

definition publish :: "'a env \<Rightarrow> world \<Rightarrow> string \<Rightarrow> message \<Rightarrow> (error + unit) \<times> world" where
  "publish env w ch msg =
     (case issue env w (PUBLISH ch msg) of
        (True, w1) \<Rightarrow> (Inl RedisError, w1)
      | (False, w1) \<Rightarrow> (Inr (), w1))"

section \<open>RedisManager (\<^verbatim>\<open>utils/redis-manager.ts\<close>)\<close>

text \<open>\<open>borrowed\<close> counts the pool's clients that are acquired and not yet released.\<close>

record RedisManager =
  scripts :: "string list"
  scriptContents :: "string \<Rightarrow> string option"
  scriptShas :: "string \<Rightarrow> sha option"
  borrowed :: nat

definition new_RedisManager :: "string list \<Rightarrow> RedisManager" where
  "new_RedisManager names =
     \<lparr>scripts = names, scriptContents = (\<lambda>_. None), scriptShas = (\<lambda>_. None), borrowed = 0\<rparr>"

definition getScriptSha :: "RedisManager \<Rightarrow> string \<Rightarrow> sha option" where
  "getScriptSha m scriptName = scriptShas m scriptName"

definition pool_acquire :: "'a env \<Rightarrow> RedisManager \<Rightarrow> world \<Rightarrow> (error + unit) \<times> RedisManager \<times> world" where
  "pool_acquire env m w =
     (case issue env w ACQUIRE of
        (True, w1) \<Rightarrow> (Inl PoolError, m, w1)
      | (False, w1) \<Rightarrow> (Inr (), m\<lparr>borrowed := Suc (borrowed m)\<rparr>, w1))"

definition pool_release :: "RedisManager \<Rightarrow> RedisManager" where
  "pool_release m = m\<lparr>borrowed := borrowed m - 1\<rparr>"

text \<open>\<^verbatim>\<open>getClient\<close> logs and throws again; \<^verbatim>\<open>releaseClient\<close> never throws.\<close>

definition getClient :: "'a env \<Rightarrow> RedisManager \<Rightarrow> world \<Rightarrow> (error + unit) \<times> RedisManager \<times> world" where
  "getClient env m w = pool_acquire env m w"

definition releaseClient :: "RedisManager \<Rightarrow> RedisManager" where
  "releaseClient m = pool_release m"

definition scriptPath :: "string \<Rightarrow> string" where
  "scriptPath scriptName = ''scripts/'' @ scriptName @ ''.lua''"

text \<open>\<^verbatim>\<open>loadLuaScript\<close>: a read error is caught and logged, and the result is \<^verbatim>\<open>null\<close>.\<close>

definition loadLuaScript :: "'a env \<Rightarrow> string \<Rightarrow> string option" where
  "loadLuaScript env scriptName =
     (case readFile env (scriptPath scriptName) of
        None \<Rightarrow> None
      | Some content \<Rightarrow> Some content)"

text \<open>
  The loop of \<^verbatim>\<open>loadAndRegisterLuaScripts\<close>. A script whose content is \<^verbatim>\<open>null\<close> or the empty
  string fails the test \<^verbatim>\<open>if (scriptContent)\<close> and is skipped.
\<close>

fun load_each :: "'a env \<Rightarrow> string list \<Rightarrow> RedisManager \<Rightarrow> world \<Rightarrow> (error + unit) \<times> RedisManager \<times> world" where
  "load_each env [] m w = (Inr (), m, w)"
| "load_each env (scriptName # rest) m w =
     (case loadLuaScript env scriptName of
        None \<Rightarrow> load_each env rest m w
      | Some content \<Rightarrow>
          (if content = [] then load_each env rest m w
           else
             (case script_load env w content of
                (Inl e, w1) \<Rightarrow> (Inl e, m, w1)
              | (Inr h, w1) \<Rightarrow>
                  load_each env rest
                    (m\<lparr>scriptShas := (scriptShas m)(scriptName := Some h),
                       scriptContents := (scriptContents m)(scriptName := Some content)\<rparr>) w1)))"

definition loadAndRegisterLuaScripts ::
  "'a env \<Rightarrow> RedisManager \<Rightarrow> world \<Rightarrow> (error + unit) \<times> RedisManager \<times> world" where
  "loadAndRegisterLuaScripts env m w =
     (case pool_acquire env m w of
        (Inl e, m1, w1) \<Rightarrow> (Inl e, m1, w1)
      | (Inr _, m1, w1) \<Rightarrow>
          (case load_each env (scripts m1) m1 w1 of
             (r, m2, w2) \<Rightarrow> (r, pool_release m2, w2)))"

text \<open>\<^verbatim>\<open>RedisManager.init\<close>: an error is logged and thrown again.\<close>

definition RedisManager_init ::
  "'a env \<Rightarrow> RedisManager \<Rightarrow> world \<Rightarrow> (error + unit) \<times> RedisManager \<times> world" where
  "RedisManager_init env m w = loadAndRegisterLuaScripts env m w"

section \<open>Queue (\<^verbatim>\<open>queue.ts\<close>)\<close>

datatype role = publisher | subscriber

text \<open>
  The two dedicated connections are present or absent; \<open>consumers\<close> is the
  \<^verbatim>\<open>Map<string, Consumer>\<close> in insertion order.
\<close>

record 'a Queue =
  qtype :: role
  redisManager :: RedisManager
  subscriberClient :: bool
  publisherClient :: bool
  consumers :: "(string \<times> 'a Consumer) list"
  activeProcessingInterval :: bool

definition new_Queue :: "role \<Rightarrow> 'a Queue" where
  "new_Queue t =
     \<lparr>qtype = t,
      redisManager = new_RedisManager [''dequeue'', ''enqueue'', ''get_status'', ''update_status''],
      subscriberClient = (t = subscriber),
      publisherClient = (t = publisher),
      consumers = [],
      activeProcessingInterval = False\<rparr>"

definition consumers_has :: "(string \<times> 'a Consumer) list \<Rightarrow> string \<Rightarrow> bool" where
  "consumers_has cs k = (map_of cs k \<noteq> None)"

definition consumers_get :: "(string \<times> 'a Consumer) list \<Rightarrow> string \<Rightarrow> 'a Consumer option" where
  "consumers_get cs k = map_of cs k"

definition consumers_set ::
  "(string \<times> 'a Consumer) list \<Rightarrow> string \<Rightarrow> 'a Consumer \<Rightarrow> (string \<times> 'a Consumer) list" where
  "consumers_set cs k c =
     (if consumers_has cs k then map (\<lambda>(k', c'). if k' = k then (k', c) else (k', c')) cs
      else cs @ [(k, c)])"

definition Queue_init :: "'a env \<Rightarrow> 'a Queue \<Rightarrow> world \<Rightarrow> (error + unit) \<times> 'a Queue \<times> world" where
  "Queue_init env q w =
     (case RedisManager_init env (redisManager q) w of
        (Inl e, m, w1) \<Rightarrow> (Inl e, q\<lparr>redisManager := m\<rparr>, w1)
      | (Inr _, m, w1) \<Rightarrow>
          (Inr (),
           q\<lparr>redisManager := m,
             activeProcessingInterval := (qtype q = subscriber \<or> activeProcessingInterval q)\<rparr>,
           w1))"

definition groupsKey :: "string \<Rightarrow> key" where
  "groupsKey qn = ''qtask:'' @ qn @ '':groups''"

definition groupKey :: "string \<Rightarrow> string \<Rightarrow> key" where
  "groupKey qn gn = ''qtask:'' @ qn @ '':group:'' @ gn"

text \<open>How a sweep that ran to its end ended.\<close>

datatype sweep_end = Finished | Script_missing | Aborted error

text \<open>
  The second half of the loop body of \<^verbatim>\<open>processQueueTasks\<close>: what is done with the reply
  of the dequeue script. A reply that is not an array is skipped. A parse error and a
  rejection of \<^verbatim>\<open>consumer.process\<close> are caught inside the body and logged. The result
  \<open>None\<close> is \<^verbatim>\<open>continue\<close> (or the end of the body); \<open>Some Pending\<close> says that the awaited
  \<^verbatim>\<open>consumer.process\<close> has not settled.
\<close>

definition dispatch_reply ::
  "'a env \<Rightarrow> 'a Consumer \<Rightarrow> reply \<Rightarrow> sweep_end promise option \<times> 'a Consumer" where
  "dispatch_reply env consumer result =
     (case result of
        Job_reply jobId jobDataStr groupName \<Rightarrow>
          (case JSON_parse env jobDataStr of
             None \<Rightarrow> (None, consumer)
           | Some jobData \<Rightarrow>
               (case Consumer_process consumer
                       \<lparr>job_id = jobId, job_data = jobData, job_groupName = groupName\<rparr> of
                  (Pending, c1) \<Rightarrow> (Some Pending, c1)
                | (_, c1) \<Rightarrow> (None, c1)))
      | _ \<Rightarrow> (None, consumer))"

text \<open>
  The body of the loop of \<^verbatim>\<open>processQueueTasks\<close> for one group key. \<open>Some\<close> leaves the
  loop: a store command threw and the outer \<^verbatim>\<open>catch\<close> took over, or the job is still
  being processed. The three store commands are awaited one by one, so each is answered
  by the store as the others have left it by then, and \<^verbatim>\<open>consumer.process\<close> reads the
  status the shared consumer has at that moment.
\<close>

definition visit_group ::
  "'a env \<Rightarrow> sha \<Rightarrow> key \<Rightarrow> key \<Rightarrow> 'a Consumer \<Rightarrow> world \<Rightarrow> sweep_end promise option \<times> 'a Consumer \<times> world" where
  "visit_group env scriptSha queueGroupsKey gk consumer w =
     (case zcard env (await env w) gk of
        (Inl e, w1) \<Rightarrow> (Some (Resolved (Aborted e)), consumer, w1)
      | (Inr jobCount, w1) \<Rightarrow>
          (if jobCount = 0 then
             (case srem env (await env w1) queueGroupsKey gk of
                (Inl e, w2) \<Rightarrow> (Some (Resolved (Aborted e)), consumer, w2)
              | (Inr _, w2) \<Rightarrow> (None, consumer, w2))
           else
             (case evalsha env (await env w1) scriptSha [gk] [] of
                (Inl e, w2) \<Rightarrow> (Some (Resolved (Aborted e)), consumer, w2)
              | (Inr result, w2) \<Rightarrow>
                  (case dispatch_reply env (resume env w2 consumer) result of
                     (r, c1) \<Rightarrow> (r, c1, w2)))))"

text \<open>
  The \<^verbatim>\<open>for\<close> loop over the group keys that \<^verbatim>\<open>SMEMBERS\<close> returned. The world and the consumer
  that one iteration leaves are those the next one starts from; what the others do in
  between enters with the next \<^verbatim>\<open>await\<close> of the body.
\<close>

fun sweep_groups ::
  "'a env \<Rightarrow> sha \<Rightarrow> key \<Rightarrow> key list \<Rightarrow> 'a Consumer \<Rightarrow> world \<Rightarrow> sweep_end promise \<times> 'a Consumer \<times> world" where
  "sweep_groups env scriptSha queueGroupsKey [] consumer w = (Resolved Finished, consumer, w)"
| "sweep_groups env scriptSha queueGroupsKey (gk # rest) consumer w =
     (case visit_group env scriptSha queueGroupsKey gk consumer w of
        (Some r, c1, w1) \<Rightarrow> (r, c1, w1)
      | (None, c1, w1) \<Rightarrow> sweep_groups env scriptSha queueGroupsKey rest c1 w1)"

text \<open>
  \<^verbatim>\<open>processQueueTasks\<close>. The client is acquired before the \<^verbatim>\<open>try\<close>, so a failed acquisition
  rejects the call; everything thrown later is caught and logged. The index is read as
  the others have left it when \<^verbatim>\<open>SMEMBERS\<close> is answered. The \<^verbatim>\<open>finally\<close> block releases the
  client once the body is through; while the body is pending it has not run.
\<close>

definition processQueueTasks ::
  "'a env \<Rightarrow> RedisManager \<Rightarrow> world \<Rightarrow> string \<Rightarrow> 'a Consumer \<Rightarrow>
     sweep_end promise \<times> RedisManager \<times> 'a Consumer \<times> world" where
  "processQueueTasks env m w qn consumer =
     (case getClient env m w of
        (Inl e, m1, w1) \<Rightarrow> (Rejected e, m1, consumer, w1)
      | (Inr _, m1, w1) \<Rightarrow>
          (case getScriptSha m1 ''dequeue'' of
             None \<Rightarrow> (Resolved Script_missing, releaseClient m1, consumer, w1)
           | Some scriptSha \<Rightarrow>
               (case smembers env (await env w1) (groupsKey qn) of
                  (Inl e, w2) \<Rightarrow> (Resolved (Aborted e), releaseClient m1, consumer, w2)
                | (Inr groups, w2) \<Rightarrow>
                    (if groups = [] then (Resolved Finished, releaseClient m1, consumer, w2)
                     else
                       (case sweep_groups env scriptSha (groupsKey qn) groups consumer w2 of
                          (Pending, c1, w3) \<Rightarrow> (Pending, m1, c1, w3)
                        | (r, c1, w3) \<Rightarrow> (r, releaseClient m1, c1, w3))))))"

text \<open>\<^verbatim>\<open>IAddJobOptions\<close>: each option may be absent.\<close>

record IAddJobOptions =
  priority :: "int option"
  delay :: "int option"
  ttl :: "int option"

definition or_zero :: "int option \<Rightarrow> int" where
  "or_zero x = (case x of None \<Rightarrow> 0 | Some v \<Rightarrow> v)"

text \<open>The value \<^verbatim>\<open>add\<close> returns for a reply of the store: a nil reply is \<^verbatim>\<open>null\<close>.\<close>

definition returned :: "reply \<Rightarrow> reply option" where
  "returned r = (if r = Nil_reply then None else Some r)"

text \<open>
  The \<^verbatim>\<open>try\<close> block of \<^verbatim>\<open>add\<close> with its \<^verbatim>\<open>catch\<close>: whatever is thrown inside, by
  \<^verbatim>\<open>JSON.stringify\<close>, by the script call or by the publish, ends in \<^verbatim>\<open>return null\<close>.
\<close>

definition add_body ::
  "'a env \<Rightarrow> 'a Queue \<Rightarrow> world \<Rightarrow> string \<Rightarrow> string \<Rightarrow> 'a \<Rightarrow> IAddJobOptions \<Rightarrow> reply option \<times> world" where
  "add_body env q w qn gn data options =
     (case getScriptSha (redisManager q) ''enqueue'' of
        None \<Rightarrow> (None, w)
      | Some scriptSha \<Rightarrow>
          (case JSON_stringify env data of
             None \<Rightarrow> (None, w)
           | Some text \<Rightarrow>
               (case evalsha env w scriptSha [groupsKey qn, groupKey qn gn]
                       [Str text, Str gn, Num (or_zero (priority options)),
                        Num (or_zero (delay options)), Num (or_zero (ttl options))] of
                  (Inl e, w1) \<Rightarrow> (None, w1)
                | (Inr jobId, w1) \<Rightarrow>
                    (if publisherClient q then
                       (case publish env w1 ''qtask:newjob'' (JobInfo qn gn) of
                          (Inl e, w2) \<Rightarrow> (None, w2)
                        | (Inr _, w2) \<Rightarrow> (returned jobId, w2))
                     else (returned jobId, w1)))))"

text \<open>
  \<^verbatim>\<open>add\<close>. The client is acquired before the \<^verbatim>\<open>try\<close>: a failed acquisition rejects the
  call. Otherwise the \<^verbatim>\<open>finally\<close> block releases the client.
\<close>

definition add ::
  "'a env \<Rightarrow> 'a Queue \<Rightarrow> world \<Rightarrow> string \<Rightarrow> string \<Rightarrow> 'a \<Rightarrow> IAddJobOptions \<Rightarrow>
     (error + reply option) \<times> 'a Queue \<times> world" where
  "add env q w qn gn data options =
     (case getClient env (redisManager q) w of
        (Inl e, m1, w1) \<Rightarrow> (Inl e, q\<lparr>redisManager := m1\<rparr>, w1)
      | (Inr _, m1, w1) \<Rightarrow>
          (case add_body env (q\<lparr>redisManager := m1\<rparr>) w1 qn gn data options of
             (r, w2) \<Rightarrow> (Inr r, q\<lparr>redisManager := releaseClient m1\<rparr>, w2)))"

text \<open>
  \<^verbatim>\<open>process\<close>: the two guards, the registration of a new consumer, and the sweep that
  follows at once. The consumer object is shared between the map and the sweep; the
  state the sweep leaves it in is written back under its name.
\<close>

definition Queue_process ::
  "'a env \<Rightarrow> 'a Queue \<Rightarrow> world \<Rightarrow> string \<Rightarrow> ('a IJobData \<Rightarrow> completion) \<Rightarrow>
     sweep_end promise \<times> 'a Queue \<times> world" where
  "Queue_process env q w qn cb =
     (if qtype q \<noteq> subscriber then (Rejected NotSubscriber, q, w)
      else if consumers_has (consumers q) qn then (Rejected (ProcessorExists qn), q, w)
      else
        (let consumer = new_Consumer qn cb;
             q1 = q\<lparr>consumers := consumers_set (consumers q) qn consumer\<rparr>
         in (case processQueueTasks env (redisManager q1) w qn consumer of
               (r, m1, c1, w1) \<Rightarrow>
                 (r, q1\<lparr>redisManager := m1, consumers := consumers_set (consumers q1) qn c1\<rparr>, w1))))"

text \<open>
  The handler of \<^verbatim>\<open>setupSubscriber\<close> for a message on a channel. Everything thrown inside
  is caught and logged. The client acquired by the handler is released by its
  \<^verbatim>\<open>finally\<close> block, unless the sweep is still pending.
\<close>

definition on_message :: "'a env \<Rightarrow> 'a Queue \<Rightarrow> world \<Rightarrow> string \<Rightarrow> message \<Rightarrow> 'a Queue \<times> world" where
  "on_message env q w channel msg =
     (if channel \<noteq> ''qtask:newjob'' then (q, w)
      else
        (case msg of
           Other_text _ \<Rightarrow> (q, w)
         | JobInfo qn gn \<Rightarrow>
             (case consumers_get (consumers q) qn of
                None \<Rightarrow> (q, w)
              | Some consumer \<Rightarrow>
                  (if status consumer \<noteq> SLEEPING then (q, w)
                   else
                     (case getClient env (redisManager q) w of
                        (Inl e, m1, w1) \<Rightarrow> (q\<lparr>redisManager := m1\<rparr>, w1)
                      | (Inr _, m1, w1) \<Rightarrow>
                          (case zcard env w1 (groupKey qn gn) of
                             (Inl e, w2) \<Rightarrow> (q\<lparr>redisManager := releaseClient m1\<rparr>, w2)
                           | (Inr jobCount, w2) \<Rightarrow>
                               (if jobCount > 0 then
                                  (case processQueueTasks env m1 w2 qn consumer of
                                     (Pending, m2, c1, w3) \<Rightarrow>
                                       (q\<lparr>redisManager := m2,
                                          consumers := consumers_set (consumers q) qn c1\<rparr>, w3)
                                   | (_, m2, c1, w3) \<Rightarrow>
                                       (q\<lparr>redisManager := releaseClient m2,
                                          consumers := consumers_set (consumers q) qn c1\<rparr>, w3))
                                else (q\<lparr>redisManager := releaseClient m1\<rparr>, w2))))))))"

text \<open>
  One firing of the interval callback of \<^verbatim>\<open>startActiveProcessing\<close>: the registered queues
  in the order of the map, each swept if its consumer is SLEEPING. Nothing catches a
  rejected sweep, so it ends the callback; so does a sweep that is still pending.
\<close>

fun poll_queues :: "'a env \<Rightarrow> string list \<Rightarrow> 'a Queue \<Rightarrow> world \<Rightarrow> unit promise \<times> 'a Queue \<times> world" where
  "poll_queues env [] q w = (Resolved (), q, w)"
| "poll_queues env (qn # rest) q w =
     (case consumers_get (consumers q) qn of
        None \<Rightarrow> poll_queues env rest q w
      | Some consumer \<Rightarrow>
          (if status consumer = SLEEPING then
             (case processQueueTasks env (redisManager q) w qn consumer of
                (r, m1, c1, w1) \<Rightarrow>
                  (case r of
                     Resolved _ \<Rightarrow>
                       poll_queues env rest
                         (q\<lparr>redisManager := m1, consumers := consumers_set (consumers q) qn c1\<rparr>) w1
                   | Rejected e \<Rightarrow>
                       (Rejected e,
                        q\<lparr>redisManager := m1, consumers := consumers_set (consumers q) qn c1\<rparr>, w1)
                   | Pending \<Rightarrow>
                       (Pending,
                        q\<lparr>redisManager := m1, consumers := consumers_set (consumers q) qn c1\<rparr>, w1)))
           else poll_queues env rest q w))"

definition timer_tick :: "'a env \<Rightarrow> 'a Queue \<Rightarrow> world \<Rightarrow> unit promise \<times> 'a Queue \<times> world" where
  "timer_tick env q w =
     (if activeProcessingInterval q then poll_queues env (map fst (consumers q)) q w
      else (Resolved (), q, w))"

section \<open>Reading the trace and the store\<close>

text \<open>The requests sent between two worlds, the later one reached from the earlier.\<close>

definition since :: "world \<Rightarrow> world \<Rightarrow> request list" where
  "since w w' = drop (length (trace w)) (trace w')"

text \<open>The group keys a list of requests asks the size of, and those it runs a script on.\<close>

fun visited :: "request list \<Rightarrow> key list" where
  "visited [] = []"
| "visited (ZCARD k # rs) = k # visited rs"
| "visited (_ # rs) = visited rs"

fun popped :: "request list \<Rightarrow> key list" where
  "popped [] = []"
| "popped (EVALSHA h ks as # rs) = ks @ popped rs"
| "popped (_ # rs) = popped rs"

text \<open>The members a list of requests asks to be removed from a set.\<close>

fun pruned :: "request list \<Rightarrow> string list" where
  "pruned [] = []"
| "pruned (SREM k m # rs) = m # pruned rs"
| "pruned (_ # rs) = pruned rs"

text \<open>
  The group keys that \<^verbatim>\<open>SMEMBERS\<close> answers to a sweep of queue \<open>qn\<close> started in world \<open>w\<close>:
  the request is the second of the sweep, after the acquisition of the client, and it is
  answered from the index as the others have left it by then.
\<close>

definition index_read :: "'a env \<Rightarrow> world \<Rightarrow> string \<Rightarrow> key list" where
  "index_read env w qn =
     remdups (r_sets (meanwhile env (Suc (length (trace w))) (redis w)) (groupsKey qn))"

fun is_publish :: "request \<Rightarrow> bool" where
  "is_publish (PUBLISH ch msg) = True"
| "is_publish _ = False"

text \<open>The script handles a list of requests invokes.\<close>

fun invoked :: "request list \<Rightarrow> sha list" where
  "invoked [] = []"
| "invoked (EVALSHA h ks as # rs) = h # invoked rs"
| "invoked (_ # rs) = invoked rs"

text \<open>The stored status of a job, and its stored payload text and group name.\<close>

definition stored_status :: "store \<Rightarrow> nat \<Rightarrow> JobStatus option" where
  "stored_status s jid = map_option j_status (r_jobs s jid)"

definition stored_content :: "store \<Rightarrow> nat \<Rightarrow> (string \<times> string) option" where
  "stored_content s jid = map_option (\<lambda>j. (j_payload j, j_groupName j)) (r_jobs s jid)"

text \<open>
  A job record with the given payload text and group name, under an identity that the
  store has already given out.
\<close>

definition recorded :: "store \<Rightarrow> nat \<Rightarrow> string \<times> string \<Rightarrow> bool" where
  "recorded s jid x = (stored_content s jid = Some x \<and> jid < r_next_id s)"

text \<open>
  The job at the head of a group that a pop at time \<open>t\<close> hands to the consumer, if there
  is one: the head is eligible, its record exists and has not expired, and its payload
  parses.
\<close>

definition head_job :: "'a env \<Rightarrow> int \<Rightarrow> store \<Rightarrow> key \<Rightarrow> 'a IJobData option" where
  "head_job env t s gk =
     (case r_zsets s gk of
        [] \<Rightarrow> None
      | e # _ \<Rightarrow>
          (if t < snd (fst e) then None
           else
             (case r_jobs s (snd e) of
                None \<Rightarrow> None
              | Some j \<Rightarrow>
                  (if expired t j then None
                   else
                     (case JSON_parse env (j_payload j) of
                        None \<Rightarrow> None
                      | Some d \<Rightarrow>
                          Some \<lparr>job_id = snd e, job_data = d, job_groupName = j_groupName j\<rparr>)))))"

section \<open>How the world moves\<close>

text \<open>
  One step of the world, whoever takes it: a request that fails or that leaves the
  store as it is, the removal of a member from a set, the registration of a script, the
  run of a registered script on any keys and arguments, or the passing of time. Every
  store command of the model is such a step; \<open>later w w'\<close> says that \<open>w'\<close> is reached
  from \<open>w\<close> by some sequence of them.
\<close>

inductive world_step :: "world \<Rightarrow> world \<Rightarrow> bool" where
  requested: "world_step w (w\<lparr>trace := trace w @ [r]\<rparr>)"
| removed: "world_step w
     (w\<lparr>trace := trace w @ [SREM k m],
        redis := (redis w)\<lparr>r_sets := (r_sets (redis w))(k := removeAll m (r_sets (redis w) k))\<rparr>\<rparr>)"
| registered: "world_step w
     (w\<lparr>trace := trace w @ [SCRIPT_LOAD t],
        redis := (redis w)\<lparr>r_scripts := (r_scripts (redis w))(h := Some sc)\<rparr>\<rparr>)"
| ran: "r_scripts (redis w) h = Some sc \<Longrightarrow> run_script sc (now w) (redis w) ks as = Some (rep, s') \<Longrightarrow>
     world_step w (w\<lparr>trace := trace w @ [EVALSHA h ks as], redis := s'\<rparr>)"
| elapsed: "now w \<le> t \<Longrightarrow> world_step w (w\<lparr>now := t\<rparr>)"

definition later :: "world \<Rightarrow> world \<Rightarrow> bool" where
  "later = world_step\<^sup>*\<^sup>*"

section \<open>A concrete environment\<close>

text \<open>
  An environment for the closed theorems: the four script files are present and
  compile, a digest is the text itself, payloads are the JSON values \<^verbatim>\<open>true\<close> and
  \<^verbatim>\<open>false\<close>, no request fails, and nobody else acts while a sweep is suspended.
\<close>

definition demo_files :: "string \<Rightarrow> string option" where
  "demo_files =
     map_of [(''scripts/dequeue.lua'', ''-- dequeue''), (''scripts/enqueue.lua'', ''-- enqueue''),
             (''scripts/get_status.lua'', ''-- get_status''),
             (''scripts/update_status.lua'', ''-- update_status'')]"

definition demo_compile :: "string \<Rightarrow> script option" where
  "demo_compile =
     map_of [(''-- dequeue'', Dequeue), (''-- enqueue'', Enqueue),
             (''-- get_status'', Get_status), (''-- update_status'', Update_status)]"

definition demo_stringify :: "bool \<Rightarrow> string option" where
  "demo_stringify b = Some (if b then ''true'' else ''false'')"

definition demo_parse :: "string \<Rightarrow> bool option" where
  "demo_parse t = (if t = ''true'' then Some True else if t = ''false'' then Some False else None)"

definition demo_env :: "bool env" where
  "demo_env =
     \<lparr>readFile = demo_files, fault = (\<lambda>_. False), SHA1 = Digest, lua_compile = demo_compile,
      JSON_stringify = demo_stringify, JSON_parse = demo_parse,
      meanwhile = (\<lambda>_ s. s), elapse = (\<lambda>_. 0), shared_status = (\<lambda>_ st. st)\<rparr>"

definition world0 :: world where
  "world0 = \<lparr>redis = empty_store, now = 1000, trace = []\<rparr>"

definition no_options :: IAddJobOptions where
  "no_options = \<lparr>priority = None, delay = None, ttl = None\<rparr>"

text \<open>A publisher instance and a subscriber instance after \<^verbatim>\<open>init()\<close>, on one store.\<close>

definition publisher1 :: "bool Queue" where
  "publisher1 = fst (snd (Queue_init demo_env (new_Queue publisher) world0))"

definition world1 :: world where
  "world1 = snd (snd (Queue_init demo_env (new_Queue publisher) world0))"

definition subscriber1 :: "bool Queue" where
  "subscriber1 = fst (snd (Queue_init demo_env (new_Queue subscriber) world1))"

definition world2 :: world where
  "world2 = snd (snd (Queue_init demo_env (new_Queue subscriber) world1))"

text \<open>
  The publisher admits the payload \<^verbatim>\<open>true\<close> to queue \<^verbatim>\<open>emails\<close>, group \<^verbatim>\<open>notifications\<close>
  (job 1); then the subscriber registers a processor for \<^verbatim>\<open>emails\<close> that reports success.
\<close>

definition world3 :: world where
  "world3 = snd (snd (add demo_env publisher1 world2 ''emails'' ''notifications'' True no_options))"

definition subscriber2 :: "bool Queue" where
  "subscriber2 = fst (snd (Queue_process demo_env subscriber1 world3 ''emails'' (\<lambda>j. Done None)))"

definition world4 :: world where
  "world4 = snd (snd (Queue_process demo_env subscriber1 world3 ''emails'' (\<lambda>j. Done None)))"

text \<open>
  Instead, after job 1 the publisher admits \<^verbatim>\<open>false\<close> to the same group (job 2) and
  \<^verbatim>\<open>true\<close> to group \<^verbatim>\<open>urgent\<close> of the same queue (job 3).
\<close>

definition world5 :: world where
  "world5 =
     snd (snd (add demo_env publisher1
       (snd (snd (add demo_env publisher1 world3 ''emails'' ''notifications'' False no_options)))
       ''emails'' ''urgent'' True no_options))"


text \<open>
  An environment in which another client admits the payload \<^verbatim>\<open>false\<close> to group
  \<^verbatim>\<open>notifications\<close> of \<^verbatim>\<open>emails\<close> just before the request at position 20 of the trace is
  answered; and the world a sweep of \<^verbatim>\<open>emails\<close> started in \<open>world4\<close> leaves there. An
  environment in which the other sweeps of the process keep the shared consumer RUNNING.
\<close>

definition racing_env :: "bool env" where
  "racing_env =
     demo_env\<lparr>meanwhile := (\<lambda>n s. if n = 20
        then snd (enqueue_script 1000 s (groupsKey ''emails'') (groupKey ''emails'' ''notifications'')
                   ''false'' ''notifications'' 0 0 0)
        else s)\<rparr>"

definition world11 :: world where
  "world11 =
     snd (snd (snd (processQueueTasks racing_env (redisManager subscriber2) world4 ''emails''
       (new_Consumer ''emails'' (\<lambda>j. Done None)))))"

definition busy_env :: "bool env" where
  "busy_env = demo_env\<lparr>shared_status := (\<lambda>_ _. RUNNING)\<rparr>"

text \<open>
  A third course of events, from \<open>world2\<close>: the subscriber registers a processor for
  \<^verbatim>\<open>emails\<close> on the empty store; the subscriber itself admits \<^verbatim>\<open>true\<close> to group
  \<^verbatim>\<open>notifications\<close> (job 1); the publisher admits \<^verbatim>\<open>false\<close> to group \<^verbatim>\<open>urgent\<close> (job 2);
  the subscriber receives the notification the publisher has published.
\<close>

definition subscriber3 :: "bool Queue" where
  "subscriber3 = fst (snd (Queue_process demo_env subscriber1 world2 ''emails'' (\<lambda>j. Done None)))"

definition world6 :: world where
  "world6 = snd (snd (Queue_process demo_env subscriber1 world2 ''emails'' (\<lambda>j. Done None)))"

definition subscriber4 :: "bool Queue" where
  "subscriber4 = fst (snd (add demo_env subscriber3 world6 ''emails'' ''notifications'' True no_options))"

definition world7 :: world where
  "world7 = snd (snd (add demo_env subscriber3 world6 ''emails'' ''notifications'' True no_options))"

definition world8 :: world where
  "world8 = snd (snd (add demo_env publisher1 world7 ''emails'' ''urgent'' False no_options))"

definition subscriber5 :: "bool Queue" where
  "subscriber5 = fst (on_message demo_env subscriber4 world8 ''qtask:newjob'' (JobInfo ''emails'' ''urgent''))"

definition world9 :: world where
  "world9 = snd (on_message demo_env subscriber4 world8 ''qtask:newjob'' (JobInfo ''emails'' ''urgent''))"








section \<open>Properties of the consumer\<close>

lemma consumer_state_inv:
  "consumer_state c \<Longrightarrow>
     (status c = SLEEPING \<longrightarrow> in_flight c = []) \<and>
     (status c = RUNNING \<longrightarrow> length (in_flight c) = 1)"
proof (induction rule: consumer_state.induct)
  case (fresh qn cb)
  show ?case by (simp add: new_Consumer_def)
next
  case (dispatch c job c')
  then show ?case
    by (cases "status c") (auto simp: process_begin_def split: if_splits)
next
  case (complete c job r)
  then show ?case
    by (cases "status c"; cases "in_flight c") (auto simp: process_finish_def)
qed

text \<open>
  C4. A consumer that is RUNNING rejects a second job at once with the busy error: the
  consumer is left exactly as it was, so the callback is not invoked with the second
  job and nothing is queued in the process. In every state a consumer can reach, at
  most one job is in flight.
\<close>

theorem running_consumer_rejects:
  "(status c = RUNNING \<longrightarrow>
      Consumer_process c job2 = (Rejected (ConsumerBusy (queueName c)), c) \<and>
      process_begin c job2 = Inl (ConsumerBusy (queueName c))) \<and>
   (consumer_state c \<longrightarrow> length (in_flight c) \<le> 1)"
proof -
  have "consumer_state c \<Longrightarrow> length (in_flight c) \<le> 1"
    using consumer_state_inv [of c] by (cases "status c") auto
  then show ?thesis
    by (auto simp: Consumer_process_def process_begin_def)
qed

theorem running_consumer_rejects_witness:
  "status (\<lparr>status = RUNNING, queueName = ''emails'', callback = (\<lambda>_. Never),
            handled = [\<lparr>job_id = 1, job_data = True, job_groupName = ''g''\<rparr>],
            in_flight = [\<lparr>job_id = 1, job_data = True, job_groupName = ''g''\<rparr>]\<rparr>) = RUNNING \<and>
   consumer_state (\<lparr>status = RUNNING, queueName = ''emails'', callback = (\<lambda>_. Never),
            handled = [\<lparr>job_id = 1, job_data = True, job_groupName = ''g''\<rparr>],
            in_flight = [\<lparr>job_id = 1, job_data = True, job_groupName = ''g''\<rparr>]\<rparr>) \<and>
   Consumer_process (\<lparr>status = RUNNING, queueName = ''emails'', callback = (\<lambda>_. Never),
            handled = [\<lparr>job_id = 1, job_data = True, job_groupName = ''g''\<rparr>],
            in_flight = [\<lparr>job_id = 1, job_data = True, job_groupName = ''g''\<rparr>]\<rparr>)
       \<lparr>job_id = 2, job_data = False, job_groupName = ''g''\<rparr> =
     (Rejected (ConsumerBusy ''emails''),
      \<lparr>status = RUNNING, queueName = ''emails'', callback = (\<lambda>_. Never),
            handled = [\<lparr>job_id = 1, job_data = True, job_groupName = ''g''\<rparr>],
            in_flight = [\<lparr>job_id = 1, job_data = True, job_groupName = ''g''\<rparr>]\<rparr>) \<and>
   length (in_flight (\<lparr>status = RUNNING, queueName = ''emails'', callback = (\<lambda>_. Never),
            handled = [\<lparr>job_id = 1, job_data = True, job_groupName = ''g''\<rparr>],
            in_flight = [\<lparr>job_id = 1, job_data = True, job_groupName = ''g''\<rparr>]\<rparr>)) \<le> 1"
proof -
  let ?j = "\<lparr>job_id = 1, job_data = True, job_groupName = ''g''\<rparr>"
  let ?c = "\<lparr>status = RUNNING, queueName = ''emails'', callback = (\<lambda>_. Never),
            handled = [?j], in_flight = [?j]\<rparr>"
  have run: "status ?c = RUNNING" by simp
  have "process_begin (new_Consumer ''emails'' (\<lambda>_. Never)) ?j = Inr ?c"
    by (simp add: process_begin_def new_Consumer_def)
  then have st: "consumer_state ?c"
    using consumer_state.dispatch [OF consumer_state.fresh] by blast
  from running_consumer_rejects [of ?c "\<lparr>job_id = 2, job_data = False, job_groupName = ''g''\<rparr>"]
  show ?thesis using run st by simp
qed

text \<open>
  C5. A job dispatched to a SLEEPING consumer whose callback signals completion, with
  or without an error, leaves the consumer SLEEPING: the call resolves on success and
  rejects with the callback's error on failure, and in both cases the status is
  SLEEPING afterwards. The completion step puts the consumer to SLEEPING from any
  state.
\<close>

theorem consumer_sleeps_after_completion:
  "(status c = SLEEPING \<and> callback c job = Done r \<longrightarrow>
      status (snd (Consumer_process c job)) = SLEEPING \<and>
      fst (Consumer_process c job) =
        (case r of None \<Rightarrow> Resolved () | Some m \<Rightarrow> Rejected (CallbackError m)) \<and>
      handled (snd (Consumer_process c job)) = handled c @ [job]) \<and>
   status (snd (process_finish c job r)) = SLEEPING"
  by (auto simp: Consumer_process_def process_begin_def process_finish_def)

theorem consumer_sleeps_after_completion_witness:
  "status (new_Consumer ''emails'' (\<lambda>j. Done (Some ''boom'')) :: bool Consumer) = SLEEPING \<and>
   callback (new_Consumer ''emails'' (\<lambda>j. Done (Some ''boom'')) :: bool Consumer)
     \<lparr>job_id = 1, job_data = True, job_groupName = ''g''\<rparr> = Done (Some ''boom'') \<and>
   status (snd (Consumer_process (new_Consumer ''emails'' (\<lambda>j. Done (Some ''boom'')))
     \<lparr>job_id = 1, job_data = True, job_groupName = ''g''\<rparr>)) = SLEEPING \<and>
   fst (Consumer_process (new_Consumer ''emails'' (\<lambda>j. Done (Some ''boom'')))
     \<lparr>job_id = 1, job_data = True, job_groupName = ''g''\<rparr>) = Rejected (CallbackError ''boom'')"
  using consumer_sleeps_after_completion
    [of "new_Consumer ''emails'' (\<lambda>j. Done (Some ''boom''))"
        "\<lparr>job_id = 1, job_data = True, job_groupName = ''g''\<rparr>" "Some ''boom''"]
  by (simp add: new_Consumer_def)

section \<open>Loading the scripts\<close>

lemmas io_defs = issue_def smembers_def zcard_def srem_def script_load_def evalsha_def publish_def
  pool_acquire_def pool_release_def getClient_def releaseClient_def

lemmas demo_defs = demo_files_def demo_compile_def demo_stringify_def demo_parse_def demo_env_def
  world0_def no_options_def empty_store_def

lemmas init_defs = Queue_init_def RedisManager_init_def loadAndRegisterLuaScripts_def
  new_Queue_def new_RedisManager_def loadLuaScript_def scriptPath_def getScriptSha_def

lemma load_each_ok:
  assumes nofault: "\<forall>n. \<not> fault env n"
  shows "(\<forall>name\<in>set ns. \<forall>text. readFile env (scriptPath name) = Some text \<longrightarrow> text \<noteq> [] \<longrightarrow>
            lua_compile env text \<noteq> None) \<Longrightarrow>
     \<exists>m' w'. load_each env ns m w = (Inr (), m', w') \<and>
        scripts m' = scripts m \<and> borrowed m' = borrowed m \<and>
        (\<forall>name. scriptShas m' name =
           (if name \<in> set ns then
              (case readFile env (scriptPath name) of
                 None \<Rightarrow> scriptShas m name
               | Some t \<Rightarrow> if t = [] then scriptShas m name else Some (SHA1 env t))
            else scriptShas m name))"
proof (induction ns arbitrary: m w)
  case Nil
  show ?case by simp
next
  case (Cons n ns)
  show ?case
  proof (cases "readFile env (scriptPath n)")
    case None
    with Cons.IH [of m w] Cons.prems show ?thesis
      by (auto simp: loadLuaScript_def)
  next
    case (Some t)
    show ?thesis
    proof (cases "t = []")
      case True
      with Some Cons.IH [of m w] Cons.prems show ?thesis
        by (auto simp: loadLuaScript_def)
    next
      case False
      with Some Cons.prems obtain sc where sc: "lua_compile env t = Some sc" by auto
      let ?m1 = "m\<lparr>scriptShas := (scriptShas m)(n := Some (SHA1 env t)),
                     scriptContents := (scriptContents m)(n := Some t)\<rparr>"
      let ?w1 = "w\<lparr>trace := trace w @ [SCRIPT_LOAD t],
                    redis := (redis w)\<lparr>r_scripts := (r_scripts (redis w))(SHA1 env t := Some sc)\<rparr>\<rparr>"
      have sl: "script_load env w t = (Inr (SHA1 env t), ?w1)"
        using nofault sc by (simp add: script_load_def issue_def)
      have step: "load_each env (n # ns) m w = load_each env ns ?m1 ?w1"
        using Some False sl by (simp add: loadLuaScript_def)
      from Cons.IH [of ?m1 ?w1] Cons.prems
      obtain m' w' where r: "load_each env ns ?m1 ?w1 = (Inr (), m', w')"
        and s: "scripts m' = scripts ?m1" "borrowed m' = borrowed ?m1"
        and h: "\<forall>name. scriptShas m' name =
           (if name \<in> set ns then
              (case readFile env (scriptPath name) of
                 None \<Rightarrow> scriptShas ?m1 name
               | Some t \<Rightarrow> if t = [] then scriptShas ?m1 name else Some (SHA1 env t))
            else scriptShas ?m1 name)"
        by auto
      show ?thesis
        unfolding step r using s h Some False
        by (auto split: option.splits)
    qed
  qed
qed

text \<open>
  C1, as the code has it. A script whose source cannot be read does not make
  \<^verbatim>\<open>init()\<close> fail: \<^verbatim>\<open>loadLuaScript\<close> catches the read error and returns \<^verbatim>\<open>null\<close>, and the loop
  skips the script. When no request to the pool or the store fails and every script
  text that was read compiles, \<^verbatim>\<open>init()\<close> resolves whatever the file system does: a
  script of the configured list gets the digest of its text as handle if its text was
  read and is not empty, and keeps the handle it had (none, on a new instance)
  otherwise. So \<^verbatim>\<open>init()\<close> rejects only when acquiring the connection or registering a
  script with the store fails.
\<close>

theorem init_skips_unreadable_scripts:
  assumes nofault: "\<forall>n. \<not> fault env n"
      and compiles: "\<forall>name\<in>set (scripts (redisManager q)). \<forall>text.
                        readFile env (scriptPath name) = Some text \<longrightarrow> text \<noteq> [] \<longrightarrow>
                        lua_compile env text \<noteq> None"
  shows "\<exists>q' w'. Queue_init env q w = (Inr (), q', w') \<and>
           (\<forall>name\<in>set (scripts (redisManager q)).
              getScriptSha (redisManager q') name =
                (case readFile env (scriptPath name) of
                   None \<Rightarrow> getScriptSha (redisManager q) name
                 | Some t \<Rightarrow> if t = [] then getScriptSha (redisManager q) name
                             else Some (SHA1 env t)))"
proof -
  let ?m = "redisManager q"
  let ?m1 = "?m\<lparr>borrowed := Suc (borrowed ?m)\<rparr>"
  let ?w1 = "w\<lparr>trace := trace w @ [ACQUIRE]\<rparr>"
  have acq: "pool_acquire env ?m w = (Inr (), ?m1, ?w1)"
    using nofault by (simp add: pool_acquire_def issue_def)
  from load_each_ok [OF nofault, of "scripts ?m1" ?m1 ?w1] compiles
  obtain m' w' where le: "load_each env (scripts ?m1) ?m1 ?w1 = (Inr (), m', w')"
    and sh: "\<forall>name. scriptShas m' name =
           (if name \<in> set (scripts ?m1) then
              (case readFile env (scriptPath name) of
                 None \<Rightarrow> scriptShas ?m1 name
               | Some t \<Rightarrow> if t = [] then scriptShas ?m1 name else Some (SHA1 env t))
            else scriptShas ?m1 name)"
    by auto
  have "Queue_init env q w =
          (Inr (), q\<lparr>redisManager := pool_release m',
                     activeProcessingInterval := (qtype q = subscriber \<or> activeProcessingInterval q)\<rparr>, w')"
    using acq le by (simp add: Queue_init_def RedisManager_init_def loadAndRegisterLuaScripts_def)
  moreover have "\<forall>name\<in>set (scripts ?m).
      getScriptSha (pool_release m') name =
        (case readFile env (scriptPath name) of
           None \<Rightarrow> getScriptSha ?m name
         | Some t \<Rightarrow> if t = [] then getScriptSha ?m name else Some (SHA1 env t))"
    using sh by (auto simp: getScriptSha_def pool_release_def split: option.splits)
  ultimately show ?thesis by simp
qed

theorem init_skips_unreadable_scripts_witness:
  "(\<forall>n. \<not> fault (demo_env\<lparr>readFile := (readFile demo_env)(''scripts/enqueue.lua'' := None)\<rparr>) n) \<and>
   readFile (demo_env\<lparr>readFile := (readFile demo_env)(''scripts/enqueue.lua'' := None)\<rparr>)
     (scriptPath ''enqueue'') = None \<and>
   (\<exists>q' w'. Queue_init (demo_env\<lparr>readFile := (readFile demo_env)(''scripts/enqueue.lua'' := None)\<rparr>)
               (new_Queue subscriber) world0 = (Inr (), q', w') \<and>
       getScriptSha (redisManager q') ''enqueue'' = None \<and>
       getScriptSha (redisManager q') ''dequeue'' = Some (Digest ''-- dequeue''))"
proof -
  let ?env = "demo_env\<lparr>readFile := (readFile demo_env)(''scripts/enqueue.lua'' := None)\<rparr>"
  let ?q = "new_Queue subscriber :: bool Queue"
  have nf: "\<forall>n. \<not> fault ?env n" by (simp add: demo_defs)
  have cp: "\<forall>name\<in>set (scripts (redisManager ?q)). \<forall>text.
              readFile ?env (scriptPath name) = Some text \<longrightarrow> text \<noteq> [] \<longrightarrow>
              lua_compile ?env text \<noteq> None"
    by (simp add: demo_defs new_Queue_def new_RedisManager_def scriptPath_def)
  from init_skips_unreadable_scripts [OF nf cp, of world0]
  show ?thesis
    by (auto simp: demo_defs new_Queue_def new_RedisManager_def scriptPath_def getScriptSha_def)
qed

text \<open>
  The claim as stated fails: with the source of the \<^verbatim>\<open>enqueue\<close> script unreadable,
  \<^verbatim>\<open>init()\<close> resolves, and the instance goes on with the \<^verbatim>\<open>dequeue\<close> handle cached and no
  \<^verbatim>\<open>enqueue\<close> handle.
\<close>

theorem init_resolves_despite_read_failure:
  "readFile (demo_env\<lparr>readFile := (readFile demo_env)(''scripts/enqueue.lua'' := None)\<rparr>)
     (scriptPath ''enqueue'') = None \<and>
   fst (Queue_init (demo_env\<lparr>readFile := (readFile demo_env)(''scripts/enqueue.lua'' := None)\<rparr>)
          (new_Queue publisher) world0) = Inr () \<and>
   getScriptSha (redisManager (fst (snd
     (Queue_init (demo_env\<lparr>readFile := (readFile demo_env)(''scripts/enqueue.lua'' := None)\<rparr>)
          (new_Queue publisher) world0)))) ''enqueue'' = None \<and>
   getScriptSha (redisManager (fst (snd
     (Queue_init (demo_env\<lparr>readFile := (readFile demo_env)(''scripts/enqueue.lua'' := None)\<rparr>)
          (new_Queue publisher) world0)))) ''dequeue'' = Some (Digest ''-- dequeue'')"
  by (simp add: init_defs io_defs demo_defs)

section \<open>Admission\<close>

lemma run_script_enqueue_iff:
  "run_script sc t s [k1, k2] [Str a, Str b, Num p, Num d, Num l] =
     (if sc = Enqueue then Some (enqueue_script t s k1 k2 a b p d l) else None)"
  by (cases sc) (simp_all add: run_script_def)

lemmas scenario_defs = publisher1_def world1_def subscriber1_def world2_def
  world3_def subscriber2_def world4_def world5_def
  subscriber3_def world6_def subscriber4_def world7_def world8_def subscriber5_def world9_def

lemmas model_defs = add_def add_body_def run_script_def enqueue_script_def dequeue_script_def
  or_zero_def returned_def sadd_def groupKey_def groupsKey_def Queue_process_def processQueueTasks_def
  await_def resume_def
  visit_group_def dispatch_reply_def Consumer_process_def process_begin_def process_finish_def
  new_Consumer_def consumers_has_def consumers_get_def consumers_set_def expired_def on_message_def

text \<open>What \<^verbatim>\<open>add\<close> returns and does to the store, once the connection is acquired.\<close>

lemma add_outcome:
  assumes acq: "\<not> fault env (length (trace w))"
  shows "\<exists>r w'. add env q w qn gn data options = (Inr r, q, w') \<and> now w' = now w \<and>
     (\<forall>h payload.
        getScriptSha (redisManager q) ''enqueue'' = Some h \<and>
        r_scripts (redis w) h = Some Enqueue \<and>
        JSON_stringify env data = Some payload \<and>
        \<not> fault env (length (trace w) + 1) \<longrightarrow>
          redis w' = snd (enqueue_script (now w) (redis w) (groupsKey qn) (groupKey qn gn) payload gn
                            (or_zero (priority options)) (or_zero (delay options))
                            (or_zero (ttl options))) \<and>
          r = (if publisherClient q \<and> fault env (length (trace w) + 2) then None
               else Some (Id_reply (r_next_id (redis w))))) \<and>
     (\<not> (\<exists>h payload.
        getScriptSha (redisManager q) ''enqueue'' = Some h \<and>
        r_scripts (redis w) h = Some Enqueue \<and>
        JSON_stringify env data = Some payload \<and>
        \<not> fault env (length (trace w) + 1)) \<longrightarrow>
          r = None \<and> redis w' = redis w)"
proof -
  let ?m1 = "(redisManager q)\<lparr>borrowed := Suc (borrowed (redisManager q))\<rparr>"
  let ?w1 = "w\<lparr>trace := trace w @ [ACQUIRE]\<rparr>"
  have g: "getClient env (redisManager q) w = (Inr (), ?m1, ?w1)"
    using acq by (simp add: getClient_def pool_acquire_def issue_def)
  have rel: "q\<lparr>redisManager := releaseClient ?m1\<rparr> = q"
    by (simp add: releaseClient_def pool_release_def)
  obtain r w' where b: "add_body env (q\<lparr>redisManager := ?m1\<rparr>) ?w1 qn gn data options = (r, w')"
    by (cases "add_body env (q\<lparr>redisManager := ?m1\<rparr>) ?w1 qn gn data options")
  have a: "add env q w qn gn data options = (Inr r, q, w')"
    using g b rel by (simp add: add_def)
  show ?thesis
  proof (cases "getScriptSha (redisManager q) ''enqueue''")
    case None
    with b a show ?thesis
      by (auto simp: add_body_def getScriptSha_def)
  next
    case (Some h)
    note h = this
    show ?thesis
    proof (cases "JSON_stringify env data")
      case None
      with b a h show ?thesis
        by (auto simp: add_body_def getScriptSha_def)
    next
      case (Some payload)
      show ?thesis
      proof (cases "fault env (length (trace w) + 1)")
        case True
        with b a h Some show ?thesis
          by (auto simp: add_body_def getScriptSha_def evalsha_def issue_def)
      next
        case False
        show ?thesis
        proof (cases "r_scripts (redis w) h = Some Enqueue")
          case True
          with b a h Some False show ?thesis
            by (cases "publisherClient q"; cases "fault env (Suc (Suc (length (trace w))))")
               (auto simp: add_body_def getScriptSha_def evalsha_def issue_def publish_def
                run_script_enqueue_iff enqueue_script_def returned_def Let_def)
        next
          case F2: False
          with b a h Some False show ?thesis
            by (auto simp: add_body_def getScriptSha_def evalsha_def issue_def
                run_script_enqueue_iff split: option.splits)
        qed
      qed
    qed
  qed
qed

text \<open>
  C2, as the code has it. For every invocation of \<^verbatim>\<open>add\<close> in which the pooled connection
  is acquired: the call does not raise and leaves the instance as it was; the store is
  changed by exactly one run of the enqueue script or not at all. When the enqueue
  handle is cached and registered, the payload serializes and the script call does not
  fail, the job is admitted, and the call returns the new identity, except that it
  returns none when the instance has a publisher connection and the publish raises:
  then the job is admitted although none is returned. In every other case the call
  returns none and the store is unchanged. (What a failed acquisition does is left
  out of this statement.)
\<close>

theorem add_after_acquisition:
  assumes acq: "\<not> fault env (length (trace w))"
  shows "\<exists>r w'. add env q w qn gn data options = (Inr r, q, w') \<and> now w' = now w \<and>
     (\<forall>h payload.
        getScriptSha (redisManager q) ''enqueue'' = Some h \<and>
        r_scripts (redis w) h = Some Enqueue \<and>
        JSON_stringify env data = Some payload \<and>
        \<not> fault env (length (trace w) + 1) \<longrightarrow>
          redis w' = snd (enqueue_script (now w) (redis w) (groupsKey qn) (groupKey qn gn) payload gn
                            (or_zero (priority options)) (or_zero (delay options))
                            (or_zero (ttl options))) \<and>
          r = (if publisherClient q \<and> fault env (length (trace w) + 2) then None
               else Some (Id_reply (r_next_id (redis w))))) \<and>
     (\<not> (\<exists>h payload.
        getScriptSha (redisManager q) ''enqueue'' = Some h \<and>
        r_scripts (redis w) h = Some Enqueue \<and>
        JSON_stringify env data = Some payload \<and>
        \<not> fault env (length (trace w) + 1)) \<longrightarrow>
          r = None \<and> redis w' = redis w)"
  using acq by (rule add_outcome)

theorem add_after_acquisition_witness:
  "\<not> fault demo_env (length (trace world1)) \<and>
   (\<exists>w'. add demo_env publisher1 world1 ''emails'' ''notifications'' True no_options =
            (Inr (Some (Id_reply 1)), publisher1, w') \<and>
          r_zsets (redis w') (groupKey ''emails'' ''notifications'') = [((0, 1000), 1)] \<and>
          r_sets (redis w') (groupsKey ''emails'') = [groupKey ''emails'' ''notifications''])"
proof -
  have nf: "\<not> fault demo_env (length (trace world1))"
    by (simp add: demo_defs)
  from add_after_acquisition [OF nf, of publisher1 "''emails''" "''notifications''" True no_options]
  obtain r w' where
    a: "add demo_env publisher1 world1 ''emails'' ''notifications'' True no_options =
          (Inr r, publisher1, w')"
    and c: "\<forall>h payload.
        getScriptSha (redisManager publisher1) ''enqueue'' = Some h \<and>
        r_scripts (redis world1) h = Some Enqueue \<and>
        JSON_stringify demo_env True = Some payload \<and>
        \<not> fault demo_env (length (trace world1) + 1) \<longrightarrow>
          redis w' = snd (enqueue_script (now world1) (redis world1) (groupsKey ''emails'')
                            (groupKey ''emails'' ''notifications'') payload ''notifications''
                            (or_zero (priority no_options)) (or_zero (delay no_options))
                            (or_zero (ttl no_options))) \<and>
          r = (if publisherClient publisher1 \<and> fault demo_env (length (trace world1) + 2) then None
               else Some (Id_reply (r_next_id (redis world1))))"
    by blast
  have "getScriptSha (redisManager publisher1) ''enqueue'' = Some (Digest ''-- enqueue'') \<and>
        r_scripts (redis world1) (Digest ''-- enqueue'') = Some Enqueue \<and>
        JSON_stringify demo_env True = Some ''true'' \<and>
        \<not> fault demo_env (length (trace world1) + 1)"
    by (simp add: scenario_defs init_defs io_defs demo_defs)
  with c have
    "redis w' = snd (enqueue_script (now world1) (redis world1) (groupsKey ''emails'')
                            (groupKey ''emails'' ''notifications'') ''true'' ''notifications''
                            (or_zero (priority no_options)) (or_zero (delay no_options))
                            (or_zero (ttl no_options)))"
    and "r = (if publisherClient publisher1 \<and> fault demo_env (length (trace world1) + 2) then None
               else Some (Id_reply (r_next_id (redis world1))))"
    by blast+
  then have "r = Some (Id_reply 1)"
    and "r_zsets (redis w') (groupKey ''emails'' ''notifications'') = [((0, 1000), 1)]"
    and "r_sets (redis w') (groupsKey ''emails'') = [groupKey ''emails'' ''notifications'']"
    by (simp_all add: scenario_defs init_defs io_defs demo_defs enqueue_script_def or_zero_def
        sadd_def groupKey_def groupsKey_def)
  with a nf show ?thesis by simp
qed

text \<open>
  The claim as stated fails: on a publisher instance whose publish raises after the
  enqueue script has run, \<^verbatim>\<open>add\<close> returns none, and the job is in the store, queued in
  its group.
\<close>

theorem add_returns_none_for_admitted_job:
  "fst (add (demo_env\<lparr>fault := (\<lambda>n. n = 7)\<rparr>) publisher1 world1
          ''emails'' ''notifications'' True no_options) = Inr None \<and>
   r_zsets (redis world1) (groupKey ''emails'' ''notifications'') = [] \<and>
   r_zsets (redis (snd (snd (add (demo_env\<lparr>fault := (\<lambda>n. n = 7)\<rparr>) publisher1 world1
          ''emails'' ''notifications'' True no_options)))) (groupKey ''emails'' ''notifications'') =
     [((0, 1000), 1)] \<and>
   map_option j_status (r_jobs (redis (snd (snd (add (demo_env\<lparr>fault := (\<lambda>n. n = 7)\<rparr>)
          publisher1 world1 ''emails'' ''notifications'' True no_options)))) 1) = Some Queued"
  by (simp add: add_def add_body_def scenario_defs init_defs io_defs demo_defs run_script_def
      enqueue_script_def or_zero_def returned_def sadd_def groupKey_def groupsKey_def)

text \<open>A failed acquisition of the pooled connection rejects the call.\<close>

lemma add_rejects_when_acquisition_fails:
  "fst (add (demo_env\<lparr>fault := (\<lambda>n. n = 5)\<rparr>) publisher1 world1
          ''emails'' ''notifications'' True no_options) = Inl PoolError"
  by (simp add: add_def scenario_defs init_defs io_defs demo_defs)

section \<open>One group of a sweep\<close>

lemma run_script_dequeue_iff:
  "run_script sc t s [k] [] = (if sc = Dequeue then Some (dequeue_script t s k) else None)"
  by (cases sc) (simp_all add: run_script_def)

lemma dequeue_frame:
  "r_sets (snd (dequeue_script t s g)) = r_sets s"
  "r_scripts (snd (dequeue_script t s g)) = r_scripts s"
  "r_next_id (snd (dequeue_script t s g)) = r_next_id s"
  by (auto simp: dequeue_script_def Let_def split: list.splits option.splits)


lemma dequeue_content:
  "stored_content (snd (dequeue_script t s g)) i = stored_content s i"
  by (auto simp: dequeue_script_def stored_content_def Let_def split: list.splits option.splits)


text \<open>A job that a pop returns is stored as \<open>processing\<close> when the pop is through.\<close>

lemma dequeue_reply_status:
  "fst (dequeue_script t s g) = Job_reply i p gn \<Longrightarrow>
     stored_status (snd (dequeue_script t s g)) i = Some Processing"
  by (auto simp: dequeue_script_def stored_status_def Let_def
      split: list.splits option.splits if_splits)

text \<open>The three store commands of the loop body, spelled out.\<close>

lemma zcard_eq:
  "zcard env w g =
     (if fault env (length (trace w)) then Inl RedisError else Inr (length (r_zsets (redis w) g)),
      w\<lparr>trace := trace w @ [ZCARD g]\<rparr>)"
  by (simp add: zcard_def issue_def)

lemma srem_eq:
  "srem env w k m =
     (if fault env (length (trace w)) then (Inl RedisError, w\<lparr>trace := trace w @ [SREM k m]\<rparr>)
      else (Inr (),
            w\<lparr>trace := trace w @ [SREM k m],
              redis := (redis w)\<lparr>r_sets := (r_sets (redis w))(k := removeAll m (r_sets (redis w) k))\<rparr>\<rparr>))"
  by (simp add: srem_def issue_def)

lemma evalsha_dequeue_eq:
  "evalsha env w h [g] [] =
     (if fault env (length (trace w)) \<or> r_scripts (redis w) h \<noteq> Some Dequeue
      then (Inl RedisError, w\<lparr>trace := trace w @ [EVALSHA h [g] []]\<rparr>)
      else (Inr (fst (dequeue_script (now w) (redis w) g)),
            w\<lparr>trace := trace w @ [EVALSHA h [g] []],
              redis := snd (dequeue_script (now w) (redis w) g)\<rparr>))"
  by (cases "r_scripts (redis w) h")
     (auto simp: evalsha_def issue_def run_script_dequeue_iff case_prod_beta split: bool.splits)

lemma await_trace [simp]: "trace (await env w) = trace w"
  by (simp add: await_def)

lemma resume_handled [simp]: "handled (resume env w c) = handled c"
  by (simp add: resume_def)

text \<open>
  The loop body, case by case. \<open>u\<close> is the world that answers the \<^verbatim>\<open>ZCARD\<close>, \<open>v\<close> the world
  that answers the command after it.
\<close>

lemma visit_group_cases
  [consumes 1, case_names zcard_failed srem_failed pruned pop_failed popped]:
  assumes "visit_group env h qk g c w = (r, c', w')"
  obtains
    "fault env (length (trace w))"
      "r = Some (Resolved (Aborted RedisError))" "c' = c"
      "w' = (await env w)\<lparr>trace := trace w @ [ZCARD g]\<rparr>"
  | v where
      "v = await env ((await env w)\<lparr>trace := trace w @ [ZCARD g]\<rparr>)"
      "\<not> fault env (length (trace w))" "r_zsets (redis (await env w)) g = []"
      "fault env (Suc (length (trace w)))"
      "r = Some (Resolved (Aborted RedisError))" "c' = c"
      "w' = v\<lparr>trace := trace w @ [ZCARD g, SREM qk g]\<rparr>"
  | v where
      "v = await env ((await env w)\<lparr>trace := trace w @ [ZCARD g]\<rparr>)"
      "\<not> fault env (length (trace w))" "r_zsets (redis (await env w)) g = []"
      "\<not> fault env (Suc (length (trace w)))"
      "r = None" "c' = c"
      "w' = v\<lparr>trace := trace w @ [ZCARD g, SREM qk g],
               redis := (redis v)\<lparr>r_sets := (r_sets (redis v))(qk := removeAll g (r_sets (redis v) qk))\<rparr>\<rparr>"
  | v where
      "v = await env ((await env w)\<lparr>trace := trace w @ [ZCARD g]\<rparr>)"
      "\<not> fault env (length (trace w))" "r_zsets (redis (await env w)) g \<noteq> []"
      "fault env (Suc (length (trace w))) \<or> r_scripts (redis v) h \<noteq> Some Dequeue"
      "r = Some (Resolved (Aborted RedisError))" "c' = c"
      "w' = v\<lparr>trace := trace w @ [ZCARD g, EVALSHA h [g] []]\<rparr>"
  | v where
      "v = await env ((await env w)\<lparr>trace := trace w @ [ZCARD g]\<rparr>)"
      "\<not> fault env (length (trace w))" "r_zsets (redis (await env w)) g \<noteq> []"
      "\<not> fault env (Suc (length (trace w)))" "r_scripts (redis v) h = Some Dequeue"
      "w' = v\<lparr>trace := trace w @ [ZCARD g, EVALSHA h [g] []],
               redis := snd (dequeue_script (now v) (redis v) g)\<rparr>"
      "dispatch_reply env (resume env w' c) (fst (dequeue_script (now v) (redis v) g)) = (r, c')"
proof -
  let ?v = "await env ((await env w)\<lparr>trace := trace w @ [ZCARD g]\<rparr>)"
  have tv: "trace ?v = trace w @ [ZCARD g]" by simp
  note eq = assms [unfolded visit_group_def zcard_eq]
  show thesis
  proof (cases "fault env (length (trace w))")
    case True
    with eq show thesis by (intro that(1)) simp_all
  next
    case nf: False
    show thesis
    proof (cases "r_zsets (redis (await env w)) g = []")
      case True
      show thesis
      proof (cases "fault env (Suc (length (trace w)))")
        case f: True
        with eq nf True show thesis
          by (intro that(2) [of ?v]) (simp_all add: srem_eq)
      next
        case f: False
        with eq nf True show thesis
          by (intro that(3) [of ?v]) (simp_all add: srem_eq)
      qed
    next
      case ne: False
      show thesis
      proof (cases "fault env (Suc (length (trace w))) \<or> r_scripts (redis ?v) h \<noteq> Some Dequeue")
        case True
        with eq nf ne show thesis
          by (intro that(4) [of ?v]) (auto simp: evalsha_dequeue_eq)
      next
        case ok: False
        with eq nf ne show thesis
          by (intro that(5) [of ?v]) (auto simp: evalsha_dequeue_eq split: prod.splits)
      qed
    qed
  qed
qed

lemma Consumer_process_handled:
  "handled (snd (Consumer_process c job)) =
     (if status c = RUNNING then handled c else handled c @ [job])"
  by (auto simp: Consumer_process_def process_begin_def process_finish_def split: completion.splits)

text \<open>What the reply of a pop does to the consumer, and how the loop goes on.\<close>

lemma dispatch_reply_outcome:
  assumes "dispatch_reply env c rep = (r, c')"
  shows "r = None \<or> r = Some Pending"
    and "handled c' = handled c \<or>
         (\<exists>i p gn d. rep = Job_reply i p gn \<and> JSON_parse env p = Some d \<and>
            handled c' = handled c @ [\<lparr>job_id = i, job_data = d, job_groupName = gn\<rparr>])"
proof -
  show "r = None \<or> r = Some Pending"
    using assms
    by (auto simp: dispatch_reply_def split: reply.splits option.splits prod.splits promise.splits)
  show "handled c' = handled c \<or>
         (\<exists>i p gn d. rep = Job_reply i p gn \<and> JSON_parse env p = Some d \<and>
            handled c' = handled c @ [\<lparr>job_id = i, job_data = d, job_groupName = gn\<rparr>])"
  proof (cases rep)
    case (Job_reply i p gn)
    show ?thesis
    proof (cases "JSON_parse env p")
      case None
      with assms Job_reply show ?thesis by (simp add: dispatch_reply_def)
    next
      case (Some d)
      let ?job = "\<lparr>job_id = i, job_data = d, job_groupName = gn\<rparr>"
      from assms Job_reply Some have "c' = snd (Consumer_process c ?job)"
        by (auto simp: dispatch_reply_def split: prod.splits promise.splits)
      with Job_reply Some show ?thesis
        by (simp add: Consumer_process_handled)
    qed
  qed (use assms in \<open>simp_all add: dispatch_reply_def\<close>)
qed

lemma visit_group_trace:
  assumes "visit_group env h qk g c w = (r, c', w')"
  shows "\<exists>T. trace w' = trace w @ ZCARD g # T \<and>
             (T = [] \<or> T = [SREM qk g] \<or> T = [EVALSHA h [g] []]) \<and>
             (r = None \<longrightarrow> T \<noteq> []) \<and>
             r \<noteq> Some (Resolved Finished) \<and>
             (handled c' = handled c \<or>
              (\<exists>j. handled c' = handled c @ [j] \<and> T = [EVALSHA h [g] []]))"
  using assms
proof (cases rule: visit_group_cases)
  case (popped v)
  from dispatch_reply_outcome [OF popped(7)]
  have "r = None \<or> r = Some Pending"
    and "handled c' = handled c \<or> (\<exists>j. handled c' = handled c @ [j])"
    by auto
  with popped(6) show ?thesis by auto
qed simp_all

lemma recorded_r_sets [simp]: "recorded (s\<lparr>r_sets := f\<rparr>) jid x = recorded s jid x"
  by (simp add: recorded_def stored_content_def)

lemma recorded_dequeue [simp]:
  "recorded (snd (dequeue_script t s g)) jid x = recorded s jid x"
  by (simp add: recorded_def dequeue_content dequeue_frame)


section \<open>The loop over the groups\<close>

lemma sweep_groups_Cons_cases [consumes 1, case_names stop continue]:
  assumes "sweep_groups env h qk (g # gs) c w = (r, c', w')"
  obtains "visit_group env h qk g c w = (Some r, c', w')"
  | c1 w1 where "visit_group env h qk g c w = (None, c1, w1)"
      and "sweep_groups env h qk gs c1 w1 = (r, c', w')"
proof (cases "visit_group env h qk g c w")
  case (fields r1 c1 w1)
  show thesis
  proof (cases r1)
    case None
    with fields assms show thesis by (intro that(2) [of c1 w1]) simp_all
  next
    case (Some x)
    with fields assms show thesis by (intro that(1)) simp_all
  qed
qed

lemma visited_append: "visited (A @ B) = visited A @ visited B"
  by (induction A rule: visited.induct) simp_all

lemma popped_append: "popped (A @ B) = popped A @ popped B"
  by (induction A rule: popped.induct) simp_all

lemma pruned_append: "pruned (A @ B) = pruned A @ pruned B"
  by (induction A rule: pruned.induct) simp_all

lemma invoked_append: "invoked (A @ B) = invoked A @ invoked B"
  by (induction A rule: invoked.induct) simp_all

lemma map_filter_cong_set:
  "(\<And>x. x \<in> set xs \<Longrightarrow> f x = g x) \<Longrightarrow> List.map_filter f xs = List.map_filter g xs"
  by (induction xs) (auto simp: map_filter_simps split: option.splits)

lemma map_filter_None: "List.map_filter (\<lambda>_. None) xs = []"
  by (induction xs) (simp_all add: map_filter_simps)

lemma map_filter_append:
  "List.map_filter f (xs @ ys) = List.map_filter f xs @ List.map_filter f ys"
  by (induction xs) (auto simp: map_filter_simps split: option.splits)

text \<open>
  The requests of one iteration: the \<^verbatim>\<open>ZCARD\<close> of the group, then nothing, the removal of
  the group from the index, or the pop.
\<close>

lemma iteration_requests:
  assumes "T = [] \<or> T = [SREM qk g] \<or> T = [EVALSHA h [g] []]"
  shows "visited (ZCARD g # T) = [g]"
    and "popped (ZCARD g # T) = (if T = [EVALSHA h [g] []] then [g] else [])"
    and "pruned (ZCARD g # T) = (if T = [SREM qk g] then [g] else [])"
    and "set (invoked (ZCARD g # T)) \<subseteq> {h}"
  using assms by auto

text \<open>
  The requests of the whole loop, and what it hands to the consumer: the groups are
  visited in the order of the list until the loop is left, each visited group is pruned
  or popped at most once and not both, and each pop hands at most one job over.
\<close>

lemma sweep_groups_trace:
  "sweep_groups env h qk gs c w = (r, c', w') \<Longrightarrow> distinct gs \<Longrightarrow>
     \<exists>T f. trace w' = trace w @ T \<and>
           (\<exists>n. visited T = take n gs) \<and>
           (r = Resolved Finished \<longrightarrow>
              visited T = gs \<and> set gs = set (popped T) \<union> set (pruned T)) \<and>
           set (popped T) \<subseteq> set (visited T) \<and> distinct (popped T) \<and>
           set (pruned T) \<subseteq> set (visited T) \<and> distinct (pruned T) \<and>
           set (pruned T) \<inter> set (popped T) = {} \<and>
           set (invoked T) \<subseteq> {h} \<and>
           handled c' = handled c @ List.map_filter f (popped T)"
proof (induction gs arbitrary: c w)
  case Nil
  then show ?case
    by (intro exI [of _ "[]"] exI [of _ "\<lambda>_. None"]) (simp add: map_filter_simps)
next
  case (Cons g gs)
  from Cons.prems(2) have d: "distinct gs" and ng: "g \<notin> set gs" by simp_all
  from Cons.prems(1) show ?case
  proof (cases rule: sweep_groups_Cons_cases)
    case stop
    from visit_group_trace [OF stop] obtain T1 where
      t1: "trace w' = trace w @ ZCARD g # T1"
      and f1: "T1 = [] \<or> T1 = [SREM qk g] \<or> T1 = [EVALSHA h [g] []]"
      and nf: "r \<noteq> Resolved Finished"
      and h1: "handled c' = handled c \<or>
               (\<exists>j. handled c' = handled c @ [j] \<and> T1 = [EVALSHA h [g] []])"
      by auto
    note it = iteration_requests [OF f1]
    let ?T = "ZCARD g # T1"
    from h1 obtain f where f: "handled c' = handled c @ List.map_filter f (popped ?T)"
    proof
      assume "handled c' = handled c"
      then have "handled c' = handled c @ List.map_filter (\<lambda>_. None) (popped ?T)"
        by (simp only: map_filter_None append_Nil2)
      then show ?thesis by (rule that)
    next
      assume "\<exists>j. handled c' = handled c @ [j] \<and> T1 = [EVALSHA h [g] []]"
      then obtain j where "handled c' = handled c @ [j]" and "T1 = [EVALSHA h [g] []]"
        by auto
      then have "handled c' = handled c @ List.map_filter (\<lambda>_. Some j) (popped ?T)"
        by (simp add: map_filter_simps)
      then show ?thesis by (rule that)
    qed
    have 1: "\<exists>n. visited ?T = take n (g # gs)"
      using it(1) by (intro exI [of _ 1]) simp
    have 2: "set (popped ?T) \<subseteq> set (visited ?T)" "distinct (popped ?T)"
      "set (pruned ?T) \<subseteq> set (visited ?T)" "distinct (pruned ?T)"
      "set (pruned ?T) \<inter> set (popped ?T) = {}"
      using it(1,2,3) by (simp_all split: if_splits)
    from t1 1 2 nf it(4) f show ?thesis
      by (intro exI [of _ ?T] exI [of _ f]) blast
  next
    case (continue c1 w1)
    from visit_group_trace [OF continue(1)] obtain T1 where
      t1: "trace w1 = trace w @ ZCARD g # T1"
      and f1: "T1 = [] \<or> T1 = [SREM qk g] \<or> T1 = [EVALSHA h [g] []]"
      and ne: "T1 \<noteq> []"
      and h1: "handled c1 = handled c \<or>
               (\<exists>j. handled c1 = handled c @ [j] \<and> T1 = [EVALSHA h [g] []])"
      by auto
    note it = iteration_requests [OF f1]
    let ?T1 = "ZCARD g # T1"
    from Cons.IH [OF continue(2) d] obtain T2 f2 where
      t2: "trace w' = trace w1 @ T2"
      and v2: "\<exists>n. visited T2 = take n gs"
      and fin2: "r = Resolved Finished \<longrightarrow>
                   visited T2 = gs \<and> set gs = set (popped T2) \<union> set (pruned T2)"
      and p2: "set (popped T2) \<subseteq> set (visited T2)" "distinct (popped T2)"
      and q2: "set (pruned T2) \<subseteq> set (visited T2)" "distinct (pruned T2)"
      and pq2: "set (pruned T2) \<inter> set (popped T2) = {}"
      and i2: "set (invoked T2) \<subseteq> {h}"
      and h2: "handled c' = handled c1 @ List.map_filter f2 (popped T2)"
      by blast
    let ?T = "?T1 @ T2"
    from v2 obtain n where n: "visited T2 = take n gs" by blast
    then have sub: "set (visited T2) \<subseteq> set gs" by (simp add: set_take_subset)
    have ngp: "g \<notin> set (popped T2)" and ngq: "g \<notin> set (pruned T2)"
      using sub p2(1) q2(1) ng by auto
    have a: "trace w' = trace w @ ?T" using t1 t2 by simp
    have v: "visited ?T = g # visited T2" using it(1) by (simp add: visited_append)
    have b: "\<exists>n. visited ?T = take n (g # gs)"
      unfolding v n by (rule exI [of _ "Suc n"]) simp
    have pT: "popped ?T = popped ?T1 @ popped T2" by (rule popped_append)
    have qT: "pruned ?T = pruned ?T1 @ pruned T2" by (rule pruned_append)
    have c: "r = Resolved Finished \<longrightarrow>
               visited ?T = g # gs \<and> set (g # gs) = set (popped ?T) \<union> set (pruned ?T)"
    proof
      assume "r = Resolved Finished"
      with fin2 have x: "visited T2 = gs" and y: "set gs = set (popped T2) \<union> set (pruned T2)"
        by simp_all
      from f1 ne have "set (popped ?T1) \<union> set (pruned ?T1) = {g}" by auto
      with y have "set (g # gs) = set (popped ?T) \<union> set (pruned ?T)"
        unfolding pT qT by auto
      with x v show "visited ?T = g # gs \<and> set (g # gs) = set (popped ?T) \<union> set (pruned ?T)"
        by simp
    qed
    have e: "set (popped ?T) \<subseteq> set (visited ?T)" "distinct (popped ?T)"
      "set (pruned ?T) \<subseteq> set (visited ?T)" "distinct (pruned ?T)"
      using p2 q2 ngp ngq it(2,3) unfolding pT qT v by (auto split: if_splits)
    have k: "set (pruned ?T) \<inter> set (popped ?T) = {}"
      using pq2 ngp ngq it(2,3) unfolding pT qT by (auto split: if_splits)
    have i: "set (invoked ?T) \<subseteq> {h}"
      using i2 it(4) by (simp add: invoked_append)
    from h1 obtain o1 where
      o1: "handled c1 = handled c @ List.map_filter (f2(g := o1)) (popped ?T1)"
    proof
      assume "handled c1 = handled c"
      then have "handled c1 = handled c @ List.map_filter (f2(g := None)) (popped ?T1)"
        using it(2) by (simp add: map_filter_simps)
      then show ?thesis by (rule that)
    next
      assume "\<exists>j. handled c1 = handled c @ [j] \<and> T1 = [EVALSHA h [g] []]"
      then obtain j where "handled c1 = handled c @ [j]" and "T1 = [EVALSHA h [g] []]"
        by auto
      then have "handled c1 = handled c @ List.map_filter (f2(g := Some j)) (popped ?T1)"
        by (simp add: map_filter_simps)
      then show ?thesis by (rule that)
    qed
    have "List.map_filter (f2(g := o1)) (popped T2) = List.map_filter f2 (popped T2)"
      using ngp by (intro map_filter_cong_set) auto
    with o1 h2 have m: "handled c' = handled c @ List.map_filter (f2(g := o1)) (popped ?T)"
      unfolding pT by (simp add: map_filter_append)
    from a b c e k i m show ?thesis
      by (intro exI [of _ ?T] exI [of _ "f2(g := o1)"]) blast
  qed
qed


section \<open>The concrete worlds, computed\<close>

lemma publisher1_eq:
  "publisher1 =
    \<lparr>qtype = publisher,
       redisManager =
         \<lparr>scripts =
            [''dequeue'', ''enqueue'', ''get_status'', ''update_status''],
            scriptContents =
              [''dequeue'' \<mapsto> ''-- dequeue'', ''enqueue'' \<mapsto> ''-- enqueue'',
               ''get_status'' \<mapsto> ''-- get_status'',
               ''update_status'' \<mapsto> ''-- update_status''],
            scriptShas =
              [''dequeue'' \<mapsto> Digest ''-- dequeue'',
               ''enqueue'' \<mapsto> Digest ''-- enqueue'',
               ''get_status'' \<mapsto> Digest ''-- get_status'',
               ''update_status'' \<mapsto> Digest ''-- update_status''],
            borrowed = 0\<rparr>,
       subscriberClient = False, publisherClient = True, consumers = [],
       activeProcessingInterval = False\<rparr>"
  by (simp add: publisher1_def init_defs io_defs demo_defs)

lemma world1_eq:
  "world1 =
    \<lparr>redis =
       \<lparr>r_sets = \<lambda>_. [], r_zsets = \<lambda>_. [], r_jobs = \<lambda>_. None,
          r_next_id = Suc 0,
          r_scripts =
            [Digest ''-- dequeue'' \<mapsto> Dequeue,
             Digest ''-- enqueue'' \<mapsto> Enqueue,
             Digest ''-- get_status'' \<mapsto> Get_status,
             Digest ''-- update_status'' \<mapsto> Update_status]\<rparr>,
       now = 1000,
       trace =
         [ACQUIRE, SCRIPT_LOAD ''-- dequeue'', SCRIPT_LOAD ''-- enqueue'',
          SCRIPT_LOAD ''-- get_status'',
          SCRIPT_LOAD ''-- update_status'']\<rparr>"
  by (simp add: world1_def init_defs io_defs demo_defs)

lemma subscriber1_eq:
  "subscriber1 =
    \<lparr>qtype = subscriber,
       redisManager =
         \<lparr>scripts =
            [''dequeue'', ''enqueue'', ''get_status'', ''update_status''],
            scriptContents =
              [''dequeue'' \<mapsto> ''-- dequeue'', ''enqueue'' \<mapsto> ''-- enqueue'',
               ''get_status'' \<mapsto> ''-- get_status'',
               ''update_status'' \<mapsto> ''-- update_status''],
            scriptShas =
              [''dequeue'' \<mapsto> Digest ''-- dequeue'',
               ''enqueue'' \<mapsto> Digest ''-- enqueue'',
               ''get_status'' \<mapsto> Digest ''-- get_status'',
               ''update_status'' \<mapsto> Digest ''-- update_status''],
            borrowed = 0\<rparr>,
       subscriberClient = True, publisherClient = False, consumers = [],
       activeProcessingInterval = True\<rparr>"
  by (simp add: subscriber1_def world1_eq init_defs io_defs demo_defs)

lemma world2_eq:
  "world2 =
    \<lparr>redis =
       \<lparr>r_sets = \<lambda>_. [], r_zsets = \<lambda>_. [], r_jobs = \<lambda>_. None,
          r_next_id = Suc 0,
          r_scripts =
            [Digest ''-- dequeue'' \<mapsto> Dequeue,
             Digest ''-- enqueue'' \<mapsto> Enqueue,
             Digest ''-- get_status'' \<mapsto> Get_status,
             Digest ''-- update_status'' \<mapsto> Update_status]\<rparr>,
       now = 1000,
       trace =
         [ACQUIRE, SCRIPT_LOAD ''-- dequeue'', SCRIPT_LOAD ''-- enqueue'',
          SCRIPT_LOAD ''-- get_status'', SCRIPT_LOAD ''-- update_status'',
          ACQUIRE, SCRIPT_LOAD ''-- dequeue'', SCRIPT_LOAD ''-- enqueue'',
          SCRIPT_LOAD ''-- get_status'',
          SCRIPT_LOAD ''-- update_status'']\<rparr>"
  by (simp add: world2_def world1_eq init_defs io_defs demo_defs)

lemma world3_eq:
  "world3 =
    \<lparr>redis =
       \<lparr>r_sets =
          (\<lambda>_. [])
          (''qtask:emails:groups'' :=
             [''qtask:emails:group:notifications'']),
          r_zsets =
            (\<lambda>_. [])
            (''qtask:emails:group:notifications'' := [((0, 1000), Suc 0)]),
          r_jobs =
            [Suc 0 \<mapsto>
             \<lparr>j_payload = ''true'', j_groupName = ''notifications'',
                j_priority = 0, j_notBefore = 1000, j_expiresAt = None,
                j_status = Queued\<rparr>],
          r_next_id = Suc (Suc 0),
          r_scripts =
            [Digest ''-- dequeue'' \<mapsto> Dequeue,
             Digest ''-- enqueue'' \<mapsto> Enqueue,
             Digest ''-- get_status'' \<mapsto> Get_status,
             Digest ''-- update_status'' \<mapsto> Update_status]\<rparr>,
       now = 1000,
       trace =
         [ACQUIRE, SCRIPT_LOAD ''-- dequeue'', SCRIPT_LOAD ''-- enqueue'',
          SCRIPT_LOAD ''-- get_status'', SCRIPT_LOAD ''-- update_status'',
          ACQUIRE, SCRIPT_LOAD ''-- dequeue'', SCRIPT_LOAD ''-- enqueue'',
          SCRIPT_LOAD ''-- get_status'', SCRIPT_LOAD ''-- update_status'',
          ACQUIRE,
          EVALSHA (Digest ''-- enqueue'')
           [''qtask:emails:groups'', ''qtask:emails:group:notifications'']
           [Str ''true'', Str ''notifications'', Num 0, Num 0, Num 0],
          PUBLISH ''qtask:newjob''
           (JobInfo ''emails'' ''notifications'')]\<rparr>"
  by (simp add: world3_def publisher1_eq world2_eq io_defs demo_defs model_defs getScriptSha_def)

lemma world5_eq:
  "world5 =
    \<lparr>redis =
       \<lparr>r_sets =
          (\<lambda>_. [])
          (''qtask:emails:groups'' :=
             [''qtask:emails:group:notifications'',
              ''qtask:emails:group:urgent'']),
          r_zsets =
            (\<lambda>_. [])
            (''qtask:emails:group:notifications'' :=
               [((0, 1000), Suc 0), ((0, 1000), Suc (Suc 0))],
               ''qtask:emails:group:urgent'' :=
                 [((0, 1000), Suc (Suc (Suc 0)))]),
          r_jobs =
            [Suc 0 \<mapsto>
             \<lparr>j_payload = ''true'', j_groupName = ''notifications'',
                j_priority = 0, j_notBefore = 1000, j_expiresAt = None,
                j_status = Queued\<rparr>,
             Suc (Suc 0) \<mapsto>
             \<lparr>j_payload = ''false'', j_groupName = ''notifications'',
                j_priority = 0, j_notBefore = 1000, j_expiresAt = None,
                j_status = Queued\<rparr>,
             Suc (Suc (Suc 0)) \<mapsto>
             \<lparr>j_payload = ''true'', j_groupName = ''urgent'',
                j_priority = 0, j_notBefore = 1000, j_expiresAt = None,
                j_status = Queued\<rparr>],
          r_next_id = Suc (Suc (Suc (Suc 0))),
          r_scripts =
            [Digest ''-- dequeue'' \<mapsto> Dequeue,
             Digest ''-- enqueue'' \<mapsto> Enqueue,
             Digest ''-- get_status'' \<mapsto> Get_status,
             Digest ''-- update_status'' \<mapsto> Update_status]\<rparr>,
       now = 1000,
       trace =
         [ACQUIRE, SCRIPT_LOAD ''-- dequeue'', SCRIPT_LOAD ''-- enqueue'',
          SCRIPT_LOAD ''-- get_status'', SCRIPT_LOAD ''-- update_status'',
          ACQUIRE, SCRIPT_LOAD ''-- dequeue'', SCRIPT_LOAD ''-- enqueue'',
          SCRIPT_LOAD ''-- get_status'', SCRIPT_LOAD ''-- update_status'',
          ACQUIRE,
          EVALSHA (Digest ''-- enqueue'')
           [''qtask:emails:groups'', ''qtask:emails:group:notifications'']
           [Str ''true'', Str ''notifications'', Num 0, Num 0, Num 0],
          PUBLISH ''qtask:newjob'' (JobInfo ''emails'' ''notifications''),
          ACQUIRE,
          EVALSHA (Digest ''-- enqueue'')
           [''qtask:emails:groups'', ''qtask:emails:group:notifications'']
           [Str ''false'', Str ''notifications'', Num 0, Num 0, Num 0],
          PUBLISH ''qtask:newjob'' (JobInfo ''emails'' ''notifications''),
          ACQUIRE,
          EVALSHA (Digest ''-- enqueue'')
           [''qtask:emails:groups'', ''qtask:emails:group:urgent'']
           [Str ''true'', Str ''urgent'', Num 0, Num 0, Num 0],
          PUBLISH ''qtask:newjob'' (JobInfo ''emails'' ''urgent'')]\<rparr>"
  by (simp add: world5_def publisher1_eq world3_eq io_defs demo_defs model_defs getScriptSha_def
      sorts_before_def)

lemma subscriber2_eq:
  "subscriber2 =
    \<lparr>qtype = subscriber,
       redisManager =
         \<lparr>scripts =
            [''dequeue'', ''enqueue'', ''get_status'', ''update_status''],
            scriptContents =
              [''dequeue'' \<mapsto> ''-- dequeue'', ''enqueue'' \<mapsto> ''-- enqueue'',
               ''get_status'' \<mapsto> ''-- get_status'',
               ''update_status'' \<mapsto> ''-- update_status''],
            scriptShas =
              [''dequeue'' \<mapsto> Digest ''-- dequeue'',
               ''enqueue'' \<mapsto> Digest ''-- enqueue'',
               ''get_status'' \<mapsto> Digest ''-- get_status'',
               ''update_status'' \<mapsto> Digest ''-- update_status''],
            borrowed = 0\<rparr>,
       subscriberClient = True, publisherClient = False,
       consumers =
         [(''emails'',
           \<lparr>status = SLEEPING, queueName = ''emails'',
              callback = \<lambda>j. Done None,
              handled =
                [\<lparr>job_id = Suc 0, job_data = True,
                    job_groupName = ''notifications''\<rparr>],
              in_flight = []\<rparr>)],
       activeProcessingInterval = True\<rparr>"
  by (simp add: subscriber2_def subscriber1_eq world3_eq io_defs demo_defs model_defs getScriptSha_def)

lemma world4_eq:
  "world4 =
    \<lparr>redis =
       \<lparr>r_sets =
          (\<lambda>_. [])
          (''qtask:emails:groups'' :=
             [''qtask:emails:group:notifications'']),
          r_zsets = (\<lambda>_. [])(''qtask:emails:group:notifications'' := []),
          r_jobs =
            [Suc 0 \<mapsto>
             \<lparr>j_payload = ''true'', j_groupName = ''notifications'',
                j_priority = 0, j_notBefore = 1000, j_expiresAt = None,
                j_status = Processing\<rparr>],
          r_next_id = Suc (Suc 0),
          r_scripts =
            [Digest ''-- dequeue'' \<mapsto> Dequeue,
             Digest ''-- enqueue'' \<mapsto> Enqueue,
             Digest ''-- get_status'' \<mapsto> Get_status,
             Digest ''-- update_status'' \<mapsto> Update_status]\<rparr>,
       now = 1000,
       trace =
         [ACQUIRE, SCRIPT_LOAD ''-- dequeue'', SCRIPT_LOAD ''-- enqueue'',
          SCRIPT_LOAD ''-- get_status'', SCRIPT_LOAD ''-- update_status'',
          ACQUIRE, SCRIPT_LOAD ''-- dequeue'', SCRIPT_LOAD ''-- enqueue'',
          SCRIPT_LOAD ''-- get_status'', SCRIPT_LOAD ''-- update_status'',
          ACQUIRE,
          EVALSHA (Digest ''-- enqueue'')
           [''qtask:emails:groups'', ''qtask:emails:group:notifications'']
           [Str ''true'', Str ''notifications'', Num 0, Num 0, Num 0],
          PUBLISH ''qtask:newjob'' (JobInfo ''emails'' ''notifications''),
          ACQUIRE, SMEMBERS ''qtask:emails:groups'',
          ZCARD ''qtask:emails:group:notifications'',
          EVALSHA (Digest ''-- dequeue'')
           [''qtask:emails:group:notifications''] []]\<rparr>"
  by (simp add: world4_def subscriber1_eq world3_eq io_defs demo_defs model_defs getScriptSha_def)

lemmas world_eqs = publisher1_eq world1_eq subscriber1_eq world2_eq world3_eq world5_eq
  subscriber2_eq world4_eq

lemmas read_defs = head_job_def map_filter_simps since_def stored_status_def stored_content_def


section \<open>The sweep\<close>

lemma processQueueTasks_cases
  [consumes 1, case_names acquire_failed script_missing smembers_failed swept]:
  assumes "processQueueTasks env m w qn c = (r, m', c', w')"
  obtains
    "r = Rejected PoolError" "c' = c" "m' = m" "w' = w\<lparr>trace := trace w @ [ACQUIRE]\<rparr>"
  | "getScriptSha m ''dequeue'' = None" "r = Resolved Script_missing" "c' = c" "m' = m"
      "w' = w\<lparr>trace := trace w @ [ACQUIRE]\<rparr>"
  | "r = Resolved (Aborted RedisError)" "c' = c" "m' = m"
      "w' = (await env (w\<lparr>trace := trace w @ [ACQUIRE]\<rparr>))
               \<lparr>trace := trace w @ [ACQUIRE, SMEMBERS (groupsKey qn)]\<rparr>"
  | h where "getScriptSha m ''dequeue'' = Some h"
      "sweep_groups env h (groupsKey qn) (index_read env w qn) c
         ((await env (w\<lparr>trace := trace w @ [ACQUIRE]\<rparr>))
            \<lparr>trace := trace w @ [ACQUIRE, SMEMBERS (groupsKey qn)]\<rparr>) = (r, c', w')"
      "m' = (if r = Pending then m\<lparr>borrowed := Suc (borrowed m)\<rparr> else m)"
proof (cases "fault env (length (trace w))")
  case True
  with assms show thesis
    by (intro that(1)) (simp_all add: processQueueTasks_def getClient_def pool_acquire_def issue_def)
next
  case nf: False
  let ?m1 = "m\<lparr>borrowed := Suc (borrowed m)\<rparr>"
  let ?w1 = "w\<lparr>trace := trace w @ [ACQUIRE]\<rparr>"
  let ?w2 = "(await env ?w1)\<lparr>trace := trace w @ [ACQUIRE, SMEMBERS (groupsKey qn)]\<rparr>"
  have g: "getClient env m w = (Inr (), ?m1, ?w1)"
    using nf by (simp add: getClient_def pool_acquire_def issue_def)
  have rel: "releaseClient ?m1 = m" by (simp add: releaseClient_def pool_release_def)
  have gs: "getScriptSha ?m1 ''dequeue'' = getScriptSha m ''dequeue''"
    by (simp add: getScriptSha_def)
  show thesis
  proof (cases "getScriptSha m ''dequeue''")
    case None
    with assms g rel gs show thesis
      by (intro that(2)) (simp_all add: processQueueTasks_def)
  next
    case (Some h)
    show thesis
    proof (cases "fault env (Suc (length (trace w)))")
      case True
      with assms g rel gs Some show thesis
        by (intro that(3)) (simp_all add: processQueueTasks_def smembers_def issue_def)
    next
      case False
      let ?gs = "index_read env w qn"
      have sm: "smembers env (await env ?w1) (groupsKey qn) = (Inr ?gs, ?w2)"
        using False by (simp add: smembers_def issue_def index_read_def await_def)
      obtain r1 c1 w1 where sw: "sweep_groups env h (groupsKey qn) ?gs c ?w2 = (r1, c1, w1)"
        by (cases "sweep_groups env h (groupsKey qn) ?gs c ?w2")
      have e: "processQueueTasks env m w qn c =
                 (r1, (if r1 = Pending then ?m1 else m), c1, w1)"
      proof (cases "?gs = []")
        case True
        with sw have "r1 = Resolved Finished" "c1 = c" "w1 = ?w2" by simp_all
        with g gs Some sm True rel show ?thesis
          by (simp add: processQueueTasks_def)
      next
        case ne: False
        with g gs Some sm sw rel show ?thesis
          by (cases r1) (simp_all add: processQueueTasks_def)
      qed
      with assms sw Some show thesis
        by (intro that(4) [of h]) auto
    qed
  qed
qed

lemma since_append: "trace w' = trace w @ T \<Longrightarrow> since w w' = T"
  by (simp add: since_def)

lemma index_read_distinct: "distinct (index_read env w qn)"
  by (simp add: index_read_def)

text \<open>
  The requests of a sweep and what it hands to the consumer, read off the trace: after
  the acquisition and the reading of the index come the iterations of the loop.
\<close>

lemma processQueueTasks_trace:
  assumes "processQueueTasks env m w qn c = (r, m', c', w')"
  shows "\<exists>f. (\<exists>n. visited (since w w') = take n (index_read env w qn)) \<and>
           (r = Resolved Finished \<longrightarrow>
              visited (since w w') = index_read env w qn \<and>
              set (index_read env w qn) =
                set (popped (since w w')) \<union> set (pruned (since w w'))) \<and>
           set (popped (since w w')) \<subseteq> set (visited (since w w')) \<and>
           distinct (popped (since w w')) \<and>
           set (pruned (since w w')) \<subseteq> set (visited (since w w')) \<and>
           distinct (pruned (since w w')) \<and>
           set (pruned (since w w')) \<inter> set (popped (since w w')) = {} \<and>
           (\<forall>x\<in>set (invoked (since w w')). getScriptSha m ''dequeue'' = Some x) \<and>
           handled c' = handled c @ List.map_filter f (popped (since w w'))"
  using assms
proof (cases rule: processQueueTasks_cases)
  case (swept h)
  let ?w2 = "(await env (w\<lparr>trace := trace w @ [ACQUIRE]\<rparr>))
               \<lparr>trace := trace w @ [ACQUIRE, SMEMBERS (groupsKey qn)]\<rparr>"
  from sweep_groups_trace [OF swept(2) index_read_distinct] obtain T f where
    t: "trace w' = trace ?w2 @ T"
    and rest: "(\<exists>n. visited T = take n (index_read env w qn)) \<and>
           (r = Resolved Finished \<longrightarrow>
              visited T = index_read env w qn \<and>
              set (index_read env w qn) = set (popped T) \<union> set (pruned T)) \<and>
           set (popped T) \<subseteq> set (visited T) \<and> distinct (popped T) \<and>
           set (pruned T) \<subseteq> set (visited T) \<and> distinct (pruned T) \<and>
           set (pruned T) \<inter> set (popped T) = {} \<and>
           set (invoked T) \<subseteq> {h} \<and>
           handled c' = handled c @ List.map_filter f (popped T)"
    by blast
  have s: "since w w' = ACQUIRE # SMEMBERS (groupsKey qn) # T"
    using t by (intro since_append) simp
  have "visited (since w w') = visited T" "popped (since w w') = popped T"
    "pruned (since w w') = pruned T" "invoked (since w w') = invoked T"
    unfolding s by simp_all
  with rest swept(1) show ?thesis
    by (intro exI [of _ f]) auto
next
  case acquire_failed
  then show ?thesis
    by (intro exI [of _ "\<lambda>_. None"]) (simp add: since_def map_filter_simps)
next
  case script_missing
  then show ?thesis
    by (intro exI [of _ "\<lambda>_. None"]) (simp add: since_def map_filter_simps)
next
  case smembers_failed
  then show ?thesis
    by (intro exI [of _ "\<lambda>_. None"]) (simp add: since_def map_filter_simps)
qed

text \<open>
  Every visit of a sweep is a run of the loop body: for a group that the sweep has
  visited there are the world \<open>u\<close> in which its iteration began and the world \<open>u'\<close> in
  which it ended, both worlds of the sweep.
\<close>

lemma sweep_groups_runs_body:
  "sweep_groups env h qk gs c w = (r, c', w') \<Longrightarrow> distinct gs \<Longrightarrow>
   g \<in> set (visited (since w w')) \<Longrightarrow>
     \<exists>cu u ru cu' u' A B. visit_group env h qk g cu u = (ru, cu', u') \<and>
        trace u = trace w @ A \<and> trace w' = trace u' @ B"
proof (induction gs arbitrary: c w)
  case Nil
  then show ?case by (simp add: since_def)
next
  case (Cons g0 gs)
  from Cons.prems(2) have d: "distinct gs" by simp
  from Cons.prems(1) show ?case
  proof (cases rule: sweep_groups_Cons_cases)
    case stop
    from visit_group_trace [OF stop] obtain T1 where
      t1: "trace w' = trace w @ ZCARD g0 # T1"
      and f1: "T1 = [] \<or> T1 = [SREM qk g0] \<or> T1 = [EVALSHA h [g0] []]"
      by auto
    from t1 have "since w w' = ZCARD g0 # T1" by (simp add: since_def)
    with Cons.prems(3) f1 have "g = g0" by auto
    with stop have "visit_group env h qk g c w = (Some r, c', w') \<and>
        trace w = trace w @ [] \<and> trace w' = trace w' @ []"
      by simp
    then show ?thesis by blast
  next
    case (continue c1 w1)
    from visit_group_trace [OF continue(1)] obtain T1 where
      t1: "trace w1 = trace w @ ZCARD g0 # T1"
      and f1: "T1 = [] \<or> T1 = [SREM qk g0] \<or> T1 = [EVALSHA h [g0] []]"
      by auto
    from sweep_groups_trace [OF continue(2) d] obtain T2 where
      t2: "trace w' = trace w1 @ T2"
      by blast
    from t1 t2 have s: "since w w' = (ZCARD g0 # T1) @ T2" by (simp add: since_def)
    from t2 have s2: "since w1 w' = T2" by (simp add: since_def)
    have v: "visited (since w w') = g0 # visited T2"
      unfolding s visited_append using f1 by auto
    show ?thesis
    proof (cases "g = g0")
      case True
      with continue(1) t2 have "visit_group env h qk g c w = (None, c1, w1) \<and>
          trace w = trace w @ [] \<and> trace w' = trace w1 @ T2"
        by simp
      then show ?thesis by blast
    next
      case False
      with Cons.prems(3) v s2 have "g \<in> set (visited (since w1 w'))" by simp
      from Cons.IH [OF continue(2) d this] obtain cu u ru cu' u' A B where
        b: "visit_group env h qk g cu u = (ru, cu', u')"
        and a: "trace u = trace w1 @ A" and e: "trace w' = trace u' @ B"
        by blast
      from a t1 have "trace u = trace w @ (ZCARD g0 # T1 @ A)" by simp
      with b e show ?thesis by blast
    qed
  qed
qed

lemma processQueueTasks_runs_body:
  assumes "processQueueTasks env m w qn c = (r, m', c', w')"
      and "g \<in> set (visited (since w w'))"
  shows "\<exists>h cu u ru cu' u' A B.
           getScriptSha m ''dequeue'' = Some h \<and>
           visit_group env h (groupsKey qn) g cu u = (ru, cu', u') \<and>
           trace u = trace w @ A \<and> trace w' = trace u' @ B"
  using assms(1)
proof (cases rule: processQueueTasks_cases)
  case (swept h)
  let ?w2 = "(await env (w\<lparr>trace := trace w @ [ACQUIRE]\<rparr>))
               \<lparr>trace := trace w @ [ACQUIRE, SMEMBERS (groupsKey qn)]\<rparr>"
  from sweep_groups_trace [OF swept(2) index_read_distinct] obtain T where
    t: "trace w' = trace ?w2 @ T"
    by blast
  then have "since w w' = ACQUIRE # SMEMBERS (groupsKey qn) # T" "since ?w2 w' = T"
    by (simp_all add: since_def)
  with assms(2) have "g \<in> set (visited (since ?w2 w'))" by simp
  from sweep_groups_runs_body [OF swept(2) index_read_distinct this]
  obtain cu u ru cu' u' A B where
    b: "visit_group env h (groupsKey qn) g cu u = (ru, cu', u')"
    and a: "trace u = trace ?w2 @ A" and e: "trace w' = trace u' @ B"
    by blast
  from a have "trace u = trace w @ (ACQUIRE # SMEMBERS (groupsKey qn) # A)" by simp
  with b e swept(1) show ?thesis by blast
qed (use assms(2) in \<open>simp_all add: since_def\<close>)




text \<open>
  What the loop body does when another client admits a job between its two commands is
  left out of the statement above. In \<open>world4\<close> the group \<^verbatim>\<open>notifications\<close> is in the index
  and empty. The sweep's \<^verbatim>\<open>ZCARD\<close> is answered with 0; before its \<^verbatim>\<open>SREM\<close> is answered,
  another client admits job 2 to the group; the \<^verbatim>\<open>SREM\<close> then takes the group out of the
  index. The sweep runs to its end, the group holds a job and is not in the index, and
  the next sweep does not visit it.
\<close>

lemma interleaved_admission_is_stranded:
  "r_sets (redis world4) (groupsKey ''emails'') = [groupKey ''emails'' ''notifications''] \<and>
   r_zsets (redis world4) (groupKey ''emails'' ''notifications'') = [] \<and>
   fst (processQueueTasks racing_env (redisManager subscriber2) world4 ''emails''
          (new_Consumer ''emails'' (\<lambda>j. Done None))) = Resolved Finished \<and>
   since world4 world11 =
     [ACQUIRE, SMEMBERS (groupsKey ''emails''), ZCARD (groupKey ''emails'' ''notifications''),
      SREM (groupsKey ''emails'') (groupKey ''emails'' ''notifications'')] \<and>
   r_zsets (redis world11) (groupKey ''emails'' ''notifications'') = [((0, 1000), 2)] \<and>
   r_sets (redis world11) (groupsKey ''emails'') = [] \<and>
   since world11 (snd (snd (snd (processQueueTasks demo_env (redisManager subscriber2) world11
          ''emails'' (new_Consumer ''emails'' (\<lambda>j. Done None)))))) =
     [ACQUIRE, SMEMBERS (groupsKey ''emails'')]"
  by (simp add: world11_def racing_env_def world_eqs io_defs demo_defs model_defs read_defs
      getScriptSha_def sorts_before_def)




text \<open>
  Whether a popped job reaches the callback depends on the status of the consumer,
  which the sweeps of one process share. When another sweep has the consumer RUNNING at
  the moment of the dispatch, \<^verbatim>\<open>consumer.process\<close> rejects, the rejection is caught and
  logged, and the sweep goes on: job 1 has left its group, is stored as \<open>processing\<close>, and
  has been handed to nobody.
\<close>

lemma busy_consumer_drops_popped_job:
  "fst (processQueueTasks busy_env (redisManager subscriber1) world3 ''emails''
          (new_Consumer ''emails'' (\<lambda>j. Done None))) = Resolved Finished \<and>
   popped (since world3 (snd (snd (snd (processQueueTasks busy_env (redisManager subscriber1) world3
          ''emails'' (new_Consumer ''emails'' (\<lambda>j. Done None))))))) =
     [groupKey ''emails'' ''notifications''] \<and>
   handled (fst (snd (snd (processQueueTasks busy_env (redisManager subscriber1) world3
          ''emails'' (new_Consumer ''emails'' (\<lambda>j. Done None)))))) = [] \<and>
   r_zsets (redis (snd (snd (snd (processQueueTasks busy_env (redisManager subscriber1) world3
          ''emails'' (new_Consumer ''emails'' (\<lambda>j. Done None)))))))
     (groupKey ''emails'' ''notifications'') = [] \<and>
   stored_status (redis (snd (snd (snd (processQueueTasks busy_env (redisManager subscriber1) world3
          ''emails'' (new_Consumer ''emails'' (\<lambda>j. Done None))))))) 1 = Some Processing"
  by (simp add: busy_env_def world_eqs io_defs demo_defs model_defs read_defs getScriptSha_def)

text \<open>
  The only script a sweep invokes is the one cached under the name \<^verbatim>\<open>dequeue\<close>: the handles
  of \<^verbatim>\<open>update_status\<close> and \<^verbatim>\<open>get_status\<close>, loaded at \<^verbatim>\<open>init()\<close>, are never used by it.
\<close>

lemma processQueueTasks_invoked:
  assumes "processQueueTasks env m w qn c = (r, m', c', w')"
  shows "\<forall>h\<in>set (invoked (since w w')). getScriptSha m ''dequeue'' = Some h"
  using processQueueTasks_trace [OF assms] by blast

text \<open>
  C3. The subscriber registers a processor for \<^verbatim>\<open>emails\<close> while job 1 is queued; the sweep
  of \<^verbatim>\<open>process\<close> pops the job, which the dequeue script marks \<open>processing\<close>, and hands it to
  the callback. The callback calls \<^verbatim>\<open>done()\<close>: the consumer is SLEEPING again, and the
  stored status of the job is still \<open>processing\<close>, not \<open>completed\<close>. With a callback that
  calls \<^verbatim>\<open>done(err)\<close>, \<^verbatim>\<open>consumer.process\<close> rejects, and the stored status is still
  \<open>processing\<close>, not \<open>failed\<close>. Neither sweep has invoked any script but the dequeue
  script: the completion report reaches no \<^verbatim>\<open>update_status\<close> call.
\<close>

theorem completion_report_leaves_status:
  "map (\<lambda>(n, c). (n, status c, handled c)) (consumers subscriber2) =
     [(''emails'', SLEEPING, [\<lparr>job_id = 1, job_data = True, job_groupName = ''notifications''\<rparr>])] \<and>
   stored_status (redis world4) 1 = Some Processing \<and>
   stored_status (redis world4) 1 \<noteq> Some Completed \<and>
   invoked (since world3 world4) = [Digest ''-- dequeue''] \<and>
   fst (Consumer_process (new_Consumer ''emails'' (\<lambda>j. Done (Some ''boom'')))
     \<lparr>job_id = 1, job_data = True, job_groupName = ''notifications''\<rparr>) = Rejected (CallbackError ''boom'') \<and>
   stored_status (redis (snd (snd (Queue_process demo_env subscriber1 world3 ''emails''
     (\<lambda>j. Done (Some ''boom'')))))) 1 = Some Processing \<and>
   stored_status (redis (snd (snd (Queue_process demo_env subscriber1 world3 ''emails''
     (\<lambda>j. Done (Some ''boom'')))))) 1 \<noteq> Some Failed \<and>
   invoked (since world3 (snd (snd (Queue_process demo_env subscriber1 world3 ''emails''
     (\<lambda>j. Done (Some ''boom'')))))) = [Digest ''-- dequeue'']"
  by (simp add: world_eqs io_defs demo_defs model_defs getScriptSha_def stored_status_def since_def)

section \<open>The world moves by steps\<close>

lemma later_refl [simp]: "later w w"
  by (simp add: later_def)

lemma later_trans: "later a b \<Longrightarrow> later b c \<Longrightarrow> later a c"
  by (simp add: later_def)

lemma later_step: "world_step a b \<Longrightarrow> later a b"
  by (simp add: later_def)

lemma later_request: "later w (w\<lparr>trace := trace w @ [r]\<rparr>)"
  by (rule later_step) (rule world_step.requested)

lemma later_issue: "later w (snd (issue env w r))"
  by (simp add: issue_def later_request)

lemma later_smembers: "later w (snd (smembers env w k))"
  by (simp add: smembers_def issue_def later_request split: bool.splits)

lemma later_zcard: "later w (snd (zcard env w k))"
  by (simp add: zcard_def issue_def later_request split: bool.splits)


lemma later_pool_acquire: "later w (snd (snd (pool_acquire env m w)))"
  by (simp add: pool_acquire_def issue_def later_request split: bool.splits)

lemma later_srem: "later w (snd (srem env w k m))"
proof (cases "fault env (length (trace w))")
  case True
  then show ?thesis by (simp add: srem_def issue_def later_request)
next
  case False
  have "world_step w (w\<lparr>trace := trace w @ [SREM k m],
        redis := (redis w)\<lparr>r_sets := (r_sets (redis w))(k := removeAll m (r_sets (redis w) k))\<rparr>\<rparr>)"
    by (rule world_step.removed)
  with False show ?thesis by (simp add: srem_def issue_def later_step)
qed

lemma later_script_load: "later w (snd (script_load env w t))"
proof (cases "fault env (length (trace w)) \<or> lua_compile env t = None")
  case True
  then show ?thesis
    by (auto simp: script_load_def issue_def later_request split: bool.splits option.splits)
next
  case False
  then obtain sc where sc: "lua_compile env t = Some sc" by auto
  have "world_step w (w\<lparr>trace := trace w @ [SCRIPT_LOAD t],
        redis := (redis w)\<lparr>r_scripts := (r_scripts (redis w))(SHA1 env t := Some sc)\<rparr>\<rparr>)"
    by (rule world_step.registered)
  with False sc show ?thesis by (simp add: script_load_def issue_def later_step)
qed






lemma later_load_each: "later w (snd (snd (load_each env ns m w)))"
proof (induction ns arbitrary: m w)
  case Nil
  show ?case by simp
next
  case (Cons n ns)
  show ?case
  proof (cases "loadLuaScript env n")
    case None
    with Cons.IH [where m = m and w = w] show ?thesis by simp
  next
    case (Some content)
    show ?thesis
    proof (cases "content = []")
      case True
      with Some Cons.IH [where m = m and w = w] show ?thesis by simp
    next
      case False
      obtain x w1 where sl: "script_load env w content = (x, w1)"
        by (cases "script_load env w content")
      from later_script_load [of w env content] sl have l: "later w w1" by simp
      show ?thesis
      proof (cases x)
        case (Inl e)
        with Some False sl l show ?thesis by simp
      next
        case (Inr h)
        let ?m1 = "m\<lparr>scriptShas := (scriptShas m)(n := Some h),
                       scriptContents := (scriptContents m)(n := Some content)\<rparr>"
        have "later w1 (snd (snd (load_each env ns ?m1 w1)))" by (rule Cons.IH)
        with l have "later w (snd (snd (load_each env ns ?m1 w1)))" by (rule later_trans)
        with Some False sl Inr show ?thesis by simp
      qed
    qed
  qed
qed

lemma later_Queue_init: "later w (snd (snd (Queue_init env q w)))"
proof -
  let ?m = "redisManager q"
  let ?w1 = "snd (snd (pool_acquire env ?m w))"
  have 1: "later w ?w1" by (rule later_pool_acquire)
  have 2: "\<And>ns m1. later w (snd (snd (load_each env ns m1 ?w1)))"
    by (rule later_trans [OF 1 later_load_each])
  show ?thesis
    using 1 2
    by (auto simp: Queue_init_def RedisManager_init_def loadAndRegisterLuaScripts_def
        case_prod_beta split: sum.splits)
qed






section \<open>Registration and the push path\<close>

lemma subscriber3_eq:
  "subscriber3 =
    \<lparr>qtype = subscriber,
       redisManager =
         \<lparr>scripts =
            [''dequeue'', ''enqueue'', ''get_status'', ''update_status''],
            scriptContents =
              [''dequeue'' \<mapsto> ''-- dequeue'', ''enqueue'' \<mapsto> ''-- enqueue'',
               ''get_status'' \<mapsto> ''-- get_status'',
               ''update_status'' \<mapsto> ''-- update_status''],
            scriptShas =
              [''dequeue'' \<mapsto> Digest ''-- dequeue'',
               ''enqueue'' \<mapsto> Digest ''-- enqueue'',
               ''get_status'' \<mapsto> Digest ''-- get_status'',
               ''update_status'' \<mapsto> Digest ''-- update_status''],
            borrowed = 0\<rparr>,
       subscriberClient = True, publisherClient = False,
       consumers =
         [(''emails'',
           \<lparr>status = SLEEPING, queueName = ''emails'',
              callback = \<lambda>j. Done None, handled = [], in_flight = []\<rparr>)],
       activeProcessingInterval = True\<rparr>"
  by (simp add: subscriber3_def subscriber1_eq world2_eq io_defs demo_defs model_defs getScriptSha_def)

lemma world6_eq:
  "world6 =
    \<lparr>redis =
       \<lparr>r_sets = \<lambda>_. [], r_zsets = \<lambda>_. [], r_jobs = \<lambda>_. None,
          r_next_id = Suc 0,
          r_scripts =
            [Digest ''-- dequeue'' \<mapsto> Dequeue,
             Digest ''-- enqueue'' \<mapsto> Enqueue,
             Digest ''-- get_status'' \<mapsto> Get_status,
             Digest ''-- update_status'' \<mapsto> Update_status]\<rparr>,
       now = 1000,
       trace =
         [ACQUIRE, SCRIPT_LOAD ''-- dequeue'', SCRIPT_LOAD ''-- enqueue'',
          SCRIPT_LOAD ''-- get_status'', SCRIPT_LOAD ''-- update_status'',
          ACQUIRE, SCRIPT_LOAD ''-- dequeue'', SCRIPT_LOAD ''-- enqueue'',
          SCRIPT_LOAD ''-- get_status'', SCRIPT_LOAD ''-- update_status'',
          ACQUIRE, SMEMBERS ''qtask:emails:groups'']\<rparr>"
  by (simp add: world6_def subscriber1_eq world2_eq io_defs demo_defs model_defs getScriptSha_def)

lemma subscriber4_eq:
  "subscriber4 =
    \<lparr>qtype = subscriber,
       redisManager =
         \<lparr>scripts =
            [''dequeue'', ''enqueue'', ''get_status'', ''update_status''],
            scriptContents =
              [''dequeue'' \<mapsto> ''-- dequeue'', ''enqueue'' \<mapsto> ''-- enqueue'',
               ''get_status'' \<mapsto> ''-- get_status'',
               ''update_status'' \<mapsto> ''-- update_status''],
            scriptShas =
              [''dequeue'' \<mapsto> Digest ''-- dequeue'',
               ''enqueue'' \<mapsto> Digest ''-- enqueue'',
               ''get_status'' \<mapsto> Digest ''-- get_status'',
               ''update_status'' \<mapsto> Digest ''-- update_status''],
            borrowed = 0\<rparr>,
       subscriberClient = True, publisherClient = False,
       consumers =
         [(''emails'',
           \<lparr>status = SLEEPING, queueName = ''emails'',
              callback = \<lambda>j. Done None, handled = [], in_flight = []\<rparr>)],
       activeProcessingInterval = True\<rparr>"
  by (simp add: subscriber4_def subscriber3_eq world6_eq io_defs demo_defs model_defs getScriptSha_def)

lemma world7_eq:
  "world7 =
    \<lparr>redis =
       \<lparr>r_sets =
          (\<lambda>_. [])
          (''qtask:emails:groups'' :=
             [''qtask:emails:group:notifications'']),
          r_zsets =
            (\<lambda>_. [])
            (''qtask:emails:group:notifications'' := [((0, 1000), Suc 0)]),
          r_jobs =
            [Suc 0 \<mapsto>
             \<lparr>j_payload = ''true'', j_groupName = ''notifications'',
                j_priority = 0, j_notBefore = 1000, j_expiresAt = None,
                j_status = Queued\<rparr>],
          r_next_id = Suc (Suc 0),
          r_scripts =
            [Digest ''-- dequeue'' \<mapsto> Dequeue,
             Digest ''-- enqueue'' \<mapsto> Enqueue,
             Digest ''-- get_status'' \<mapsto> Get_status,
             Digest ''-- update_status'' \<mapsto> Update_status]\<rparr>,
       now = 1000,
       trace =
         [ACQUIRE, SCRIPT_LOAD ''-- dequeue'', SCRIPT_LOAD ''-- enqueue'',
          SCRIPT_LOAD ''-- get_status'', SCRIPT_LOAD ''-- update_status'',
          ACQUIRE, SCRIPT_LOAD ''-- dequeue'', SCRIPT_LOAD ''-- enqueue'',
          SCRIPT_LOAD ''-- get_status'', SCRIPT_LOAD ''-- update_status'',
          ACQUIRE, SMEMBERS ''qtask:emails:groups'', ACQUIRE,
          EVALSHA (Digest ''-- enqueue'')
           [''qtask:emails:groups'', ''qtask:emails:group:notifications'']
           [Str ''true'', Str ''notifications'', Num 0, Num 0, Num 0]]\<rparr>"
  by (simp add: world7_def subscriber3_eq world6_eq io_defs demo_defs model_defs getScriptSha_def)

lemma world8_eq:
  "world8 =
    \<lparr>redis =
       \<lparr>r_sets =
          (\<lambda>_. [])
          (''qtask:emails:groups'' :=
             [''qtask:emails:group:notifications'',
              ''qtask:emails:group:urgent'']),
          r_zsets =
            (\<lambda>_. [])
            (''qtask:emails:group:notifications'' := [((0, 1000), Suc 0)],
               ''qtask:emails:group:urgent'' := [((0, 1000), Suc (Suc 0))]),
          r_jobs =
            [Suc 0 \<mapsto>
             \<lparr>j_payload = ''true'', j_groupName = ''notifications'',
                j_priority = 0, j_notBefore = 1000, j_expiresAt = None,
                j_status = Queued\<rparr>,
             Suc (Suc 0) \<mapsto>
             \<lparr>j_payload = ''false'', j_groupName = ''urgent'',
                j_priority = 0, j_notBefore = 1000, j_expiresAt = None,
                j_status = Queued\<rparr>],
          r_next_id = Suc (Suc (Suc 0)),
          r_scripts =
            [Digest ''-- dequeue'' \<mapsto> Dequeue,
             Digest ''-- enqueue'' \<mapsto> Enqueue,
             Digest ''-- get_status'' \<mapsto> Get_status,
             Digest ''-- update_status'' \<mapsto> Update_status]\<rparr>,
       now = 1000,
       trace =
         [ACQUIRE, SCRIPT_LOAD ''-- dequeue'', SCRIPT_LOAD ''-- enqueue'',
          SCRIPT_LOAD ''-- get_status'', SCRIPT_LOAD ''-- update_status'',
          ACQUIRE, SCRIPT_LOAD ''-- dequeue'', SCRIPT_LOAD ''-- enqueue'',
          SCRIPT_LOAD ''-- get_status'', SCRIPT_LOAD ''-- update_status'',
          ACQUIRE, SMEMBERS ''qtask:emails:groups'', ACQUIRE,
          EVALSHA (Digest ''-- enqueue'')
           [''qtask:emails:groups'', ''qtask:emails:group:notifications'']
           [Str ''true'', Str ''notifications'', Num 0, Num 0, Num 0],
          ACQUIRE,
          EVALSHA (Digest ''-- enqueue'')
           [''qtask:emails:groups'', ''qtask:emails:group:urgent'']
           [Str ''false'', Str ''urgent'', Num 0, Num 0, Num 0],
          PUBLISH ''qtask:newjob'' (JobInfo ''emails'' ''urgent'')]\<rparr>"
  by (simp add: world8_def publisher1_eq world7_eq io_defs demo_defs model_defs getScriptSha_def)

lemma subscriber5_eq:
  "subscriber5 =
    \<lparr>qtype = subscriber,
       redisManager =
         \<lparr>scripts =
            [''dequeue'', ''enqueue'', ''get_status'', ''update_status''],
            scriptContents =
              [''dequeue'' \<mapsto> ''-- dequeue'', ''enqueue'' \<mapsto> ''-- enqueue'',
               ''get_status'' \<mapsto> ''-- get_status'',
               ''update_status'' \<mapsto> ''-- update_status''],
            scriptShas =
              [''dequeue'' \<mapsto> Digest ''-- dequeue'',
               ''enqueue'' \<mapsto> Digest ''-- enqueue'',
               ''get_status'' \<mapsto> Digest ''-- get_status'',
               ''update_status'' \<mapsto> Digest ''-- update_status''],
            borrowed = 0\<rparr>,
       subscriberClient = True, publisherClient = False,
       consumers =
         [(''emails'',
           \<lparr>status = SLEEPING, queueName = ''emails'',
              callback = \<lambda>j. Done None,
              handled =
                [\<lparr>job_id = Suc 0, job_data = True,
                    job_groupName = ''notifications''\<rparr>,
                 \<lparr>job_id = Suc (Suc 0), job_data = False,
                    job_groupName = ''urgent''\<rparr>],
              in_flight = []\<rparr>)],
       activeProcessingInterval = True\<rparr>"
  by (simp add: subscriber5_def subscriber4_eq world8_eq io_defs demo_defs model_defs getScriptSha_def)

lemma world9_eq:
  "world9 =
    \<lparr>redis =
       \<lparr>r_sets =
          (\<lambda>_. [])
          (''qtask:emails:groups'' :=
             [''qtask:emails:group:notifications'',
              ''qtask:emails:group:urgent'']),
          r_zsets =
            (\<lambda>_. [])
            (''qtask:emails:group:notifications'' := [],
               ''qtask:emails:group:urgent'' := []),
          r_jobs =
            [Suc 0 \<mapsto>
             \<lparr>j_payload = ''true'', j_groupName = ''notifications'',
                j_priority = 0, j_notBefore = 1000, j_expiresAt = None,
                j_status = Processing\<rparr>,
             Suc (Suc 0) \<mapsto>
             \<lparr>j_payload = ''false'', j_groupName = ''urgent'',
                j_priority = 0, j_notBefore = 1000, j_expiresAt = None,
                j_status = Processing\<rparr>],
          r_next_id = Suc (Suc (Suc 0)),
          r_scripts =
            [Digest ''-- dequeue'' \<mapsto> Dequeue,
             Digest ''-- enqueue'' \<mapsto> Enqueue,
             Digest ''-- get_status'' \<mapsto> Get_status,
             Digest ''-- update_status'' \<mapsto> Update_status]\<rparr>,
       now = 1000,
       trace =
         [ACQUIRE, SCRIPT_LOAD ''-- dequeue'', SCRIPT_LOAD ''-- enqueue'',
          SCRIPT_LOAD ''-- get_status'', SCRIPT_LOAD ''-- update_status'',
          ACQUIRE, SCRIPT_LOAD ''-- dequeue'', SCRIPT_LOAD ''-- enqueue'',
          SCRIPT_LOAD ''-- get_status'', SCRIPT_LOAD ''-- update_status'',
          ACQUIRE, SMEMBERS ''qtask:emails:groups'', ACQUIRE,
          EVALSHA (Digest ''-- enqueue'')
           [''qtask:emails:groups'', ''qtask:emails:group:notifications'']
           [Str ''true'', Str ''notifications'', Num 0, Num 0, Num 0],
          ACQUIRE,
          EVALSHA (Digest ''-- enqueue'')
           [''qtask:emails:groups'', ''qtask:emails:group:urgent'']
           [Str ''false'', Str ''urgent'', Num 0, Num 0, Num 0],
          PUBLISH ''qtask:newjob'' (JobInfo ''emails'' ''urgent''), ACQUIRE,
          ZCARD ''qtask:emails:group:urgent'', ACQUIRE,
          SMEMBERS ''qtask:emails:groups'',
          ZCARD ''qtask:emails:group:notifications'',
          EVALSHA (Digest ''-- dequeue'')
           [''qtask:emails:group:notifications''] [],
          ZCARD ''qtask:emails:group:urgent'',
          EVALSHA (Digest ''-- dequeue'') [''qtask:emails:group:urgent'']
           []]\<rparr>"
  by (simp add: world9_def subscriber4_eq world8_eq io_defs demo_defs model_defs getScriptSha_def)

lemmas push_eqs = subscriber3_eq world6_eq subscriber4_eq world7_eq world8_eq subscriber5_eq world9_eq

lemma consumers_set_fresh:
  "\<not> consumers_has cs k \<Longrightarrow> consumers_set cs k c = cs @ [(k, c)]"
  by (simp add: consumers_set_def)

lemma consumers_set_last:
  "\<not> consumers_has cs k \<Longrightarrow> consumers_set (cs @ [(k, c)]) k c1 = cs @ [(k, c1)]"
proof -
  assume n: "\<not> consumers_has cs k"
  then have "k \<notin> fst ` set cs"
    by (simp add: consumers_has_def map_of_eq_None_iff)
  then have "map (\<lambda>(k', c'). if k' = k then (k', c1) else (k', c')) cs = cs"
    by (induction cs) auto
  moreover have "consumers_has (cs @ [(k, c)]) k"
    using n by (simp add: consumers_has_def map_add_def split: option.splits)
  ultimately show ?thesis by (simp add: consumers_set_def)
qed

text \<open>
  C9. \<^verbatim>\<open>process(queue, callback)\<close> rejects on an instance that is not a subscriber and
  rejects when a consumer is registered for the queue name, in both cases leaving the
  instance and the world as they were. Otherwise it appends exactly one consumer for
  the queue to the registry and runs one sweep of that queue with the new consumer at
  once: its outcome and its world are those of the sweep, and the registered consumer
  is the one the sweep leaves.
\<close>

theorem process_registers_and_sweeps:
  "(qtype q \<noteq> subscriber \<longrightarrow> Queue_process env q w qn cb = (Rejected NotSubscriber, q, w)) \<and>
   (qtype q = subscriber \<and> consumers_has (consumers q) qn \<longrightarrow>
      Queue_process env q w qn cb = (Rejected (ProcessorExists qn), q, w)) \<and>
   (qtype q = subscriber \<and> \<not> consumers_has (consumers q) qn \<longrightarrow>
      (\<exists>r m' c' w'.
         processQueueTasks env (redisManager q) w qn (new_Consumer qn cb) = (r, m', c', w') \<and>
         Queue_process env q w qn cb =
           (r, q\<lparr>redisManager := m', consumers := consumers q @ [(qn, c')]\<rparr>, w')))"
proof (intro conjI impI)
  show "qtype q \<noteq> subscriber \<Longrightarrow> Queue_process env q w qn cb = (Rejected NotSubscriber, q, w)"
    by (simp add: Queue_process_def)
  show "qtype q = subscriber \<and> consumers_has (consumers q) qn \<Longrightarrow>
          Queue_process env q w qn cb = (Rejected (ProcessorExists qn), q, w)"
    by (simp add: Queue_process_def)
  assume a: "qtype q = subscriber \<and> \<not> consumers_has (consumers q) qn"
  obtain r m' c' w' where
    p: "processQueueTasks env (redisManager q) w qn (new_Consumer qn cb) = (r, m', c', w')"
    by (cases "processQueueTasks env (redisManager q) w qn (new_Consumer qn cb)")
  have "Queue_process env q w qn cb =
          (r, q\<lparr>redisManager := m', consumers := consumers q @ [(qn, c')]\<rparr>, w')"
    using a p by (simp add: Queue_process_def Let_def consumers_set_fresh consumers_set_last)
  with p show "\<exists>r m' c' w'.
         processQueueTasks env (redisManager q) w qn (new_Consumer qn cb) = (r, m', c', w') \<and>
         Queue_process env q w qn cb =
           (r, q\<lparr>redisManager := m', consumers := consumers q @ [(qn, c')]\<rparr>, w')"
    by blast
qed

theorem process_registers_and_sweeps_witness:
  "qtype publisher1 \<noteq> subscriber \<and>
   Queue_process demo_env publisher1 world3 ''emails'' (\<lambda>j. Done None) =
     (Rejected NotSubscriber, publisher1, world3) \<and>
   qtype subscriber2 = subscriber \<and> consumers_has (consumers subscriber2) ''emails'' \<and>
   Queue_process demo_env subscriber2 world4 ''emails'' (\<lambda>j. Done None) =
     (Rejected (ProcessorExists ''emails''), subscriber2, world4) \<and>
   qtype subscriber1 = subscriber \<and> \<not> consumers_has (consumers subscriber1) ''emails'' \<and>
   Queue_process demo_env subscriber1 world3 ''emails'' (\<lambda>j. Done None) =
     (Resolved Finished, subscriber2, world4) \<and>
   map fst (consumers subscriber2) = [''emails''] \<and>
   since world3 world4 =
     [ACQUIRE, SMEMBERS (groupsKey ''emails''), ZCARD (groupKey ''emails'' ''notifications''),
      EVALSHA (Digest ''-- dequeue'') [groupKey ''emails'' ''notifications''] []]"
proof -
  have 1: "qtype publisher1 \<noteq> subscriber" by (simp add: world_eqs)
  have 2: "qtype subscriber2 = subscriber \<and> consumers_has (consumers subscriber2) ''emails''"
    by (simp add: world_eqs consumers_has_def)
  have 3: "qtype subscriber1 = subscriber \<and> \<not> consumers_has (consumers subscriber1) ''emails''"
    by (simp add: world_eqs consumers_has_def)
  note t = process_registers_and_sweeps
  from t [of publisher1 demo_env world3 "''emails''" "\<lambda>j. Done None"] 1
  have a: "Queue_process demo_env publisher1 world3 ''emails'' (\<lambda>j. Done None) =
             (Rejected NotSubscriber, publisher1, world3)"
    by blast
  from t [of subscriber2 demo_env world4 "''emails''" "\<lambda>j. Done None"] 2
  have b: "Queue_process demo_env subscriber2 world4 ''emails'' (\<lambda>j. Done None) =
             (Rejected (ProcessorExists ''emails''), subscriber2, world4)"
    by blast
  have c: "Queue_process demo_env subscriber1 world3 ''emails'' (\<lambda>j. Done None) =
             (Resolved Finished, subscriber2, world4)"
    by (simp add: world_eqs io_defs demo_defs model_defs getScriptSha_def)
  have d: "map fst (consumers subscriber2) = [''emails'']" by (simp add: world_eqs)
  have e: "since world3 world4 =
     [ACQUIRE, SMEMBERS (groupsKey ''emails''), ZCARD (groupKey ''emails'' ''notifications''),
      EVALSHA (Digest ''-- dequeue'') [groupKey ''emails'' ''notifications''] []]"
    by (simp add: world_eqs since_def groupKey_def groupsKey_def)
  from 1 2 3 a b c d e show ?thesis by simp
qed

lemma add_trace:
  "\<exists>T. trace (snd (snd (add env q w qn gn data options))) = trace w @ T \<and>
       (\<not> publisherClient q \<longrightarrow> (\<forall>x\<in>set T. \<not> is_publish x))"
  by (auto simp: add_def add_body_def getClient_def pool_acquire_def evalsha_def publish_def
      issue_def case_prod_beta split: bool.splits option.splits sum.splits)

lemma processQueueTasks_publisherClient:
  "publisherClient (q\<lparr>redisManager := m, consumers := cs\<rparr>) = publisherClient q"
  by simp

lemma poll_queues_publisherClient:
  "publisherClient (fst (snd (poll_queues env qns q w))) = publisherClient q"
proof (induction qns arbitrary: q w)
  case Nil
  show ?case by simp
next
  case (Cons qn rest)
  show ?case
    by (simp add: Cons.IH split: option.splits prod.splits promise.splits)
qed

lemma timer_tick_publisherClient:
  "publisherClient (fst (snd (timer_tick env q w))) = publisherClient q"
  by (simp add: timer_tick_def poll_queues_publisherClient)

text \<open>
  C10, as the code has it. An instance constructed with role subscriber has no
  publisher connection, and no operation gives it one. On an instance without a
  publisher connection \<^verbatim>\<open>add\<close> sends no publish request; when the connection is
  acquired, the enqueue handle is cached and registered, the payload serializes and
  the script call does not fail, the job is admitted to the store, queued, and its
  identity is returned. (That such a job is picked up only by the periodic poll does
  not hold and is not part of this statement.)
\<close>

theorem subscriber_add_publishes_nothing:
  "\<not> publisherClient (new_Queue subscriber :: 'a Queue) \<and>
   publisherClient (fst (snd (Queue_init env q w))) = publisherClient q \<and>
   publisherClient (fst (snd (add env q w qn gn data options))) = publisherClient q \<and>
   publisherClient (fst (snd (Queue_process env q w qn cb))) = publisherClient q \<and>
   publisherClient (fst (on_message env q w ch msg)) = publisherClient q \<and>
   publisherClient (fst (snd (timer_tick env q w))) = publisherClient q \<and>
   (\<not> publisherClient q \<longrightarrow>
      filter is_publish (since w (snd (snd (add env q w qn gn data options)))) = []) \<and>
   (\<not> publisherClient q \<and> \<not> fault env (length (trace w)) \<and> \<not> fault env (length (trace w) + 1) \<and>
    getScriptSha (redisManager q) ''enqueue'' = Some h \<and> r_scripts (redis w) h = Some Enqueue \<and>
    JSON_stringify env data = Some p \<longrightarrow>
      fst (add env q w qn gn data options) = Inr (Some (Id_reply (r_next_id (redis w)))) \<and>
      stored_content (redis (snd (snd (add env q w qn gn data options)))) (r_next_id (redis w)) =
        Some (p, gn) \<and>
      stored_status (redis (snd (snd (add env q w qn gn data options)))) (r_next_id (redis w)) =
        Some Queued)"
proof (intro conjI impI)
  show "\<not> publisherClient (new_Queue subscriber :: 'a Queue)"
    by (simp add: new_Queue_def)
  show "publisherClient (fst (snd (Queue_init env q w))) = publisherClient q"
    by (simp add: Queue_init_def split: prod.splits sum.splits)
  show "publisherClient (fst (snd (add env q w qn gn data options))) = publisherClient q"
    by (simp add: add_def split: prod.splits sum.splits)
  show "publisherClient (fst (snd (Queue_process env q w qn cb))) = publisherClient q"
    by (simp add: Queue_process_def Let_def split: prod.splits)
  show "publisherClient (fst (on_message env q w ch msg)) = publisherClient q"
    by (simp add: on_message_def split: prod.splits sum.splits message.splits option.splits
        promise.splits)
  show "publisherClient (fst (snd (timer_tick env q w))) = publisherClient q"
    by (rule timer_tick_publisherClient)
next
  assume n: "\<not> publisherClient q"
  from add_trace [of env q w qn gn data options] n obtain T where
    "trace (snd (snd (add env q w qn gn data options))) = trace w @ T"
    and "\<forall>x\<in>set T. \<not> is_publish x"
    by blast
  then show "filter is_publish (since w (snd (snd (add env q w qn gn data options)))) = []"
    by (simp add: since_def)
next
  assume a: "\<not> publisherClient q \<and> \<not> fault env (length (trace w)) \<and>
    \<not> fault env (length (trace w) + 1) \<and>
    getScriptSha (redisManager q) ''enqueue'' = Some h \<and> r_scripts (redis w) h = Some Enqueue \<and>
    JSON_stringify env data = Some p"
  then have acq: "\<not> fault env (length (trace w))" by simp
  from add_outcome [OF acq, of q qn gn data options] obtain r w' where
    e: "add env q w qn gn data options = (Inr r, q, w')"
    and c: "\<forall>h payload.
        getScriptSha (redisManager q) ''enqueue'' = Some h \<and>
        r_scripts (redis w) h = Some Enqueue \<and>
        JSON_stringify env data = Some payload \<and>
        \<not> fault env (length (trace w) + 1) \<longrightarrow>
          redis w' = snd (enqueue_script (now w) (redis w) (groupsKey qn) (groupKey qn gn) payload gn
                            (or_zero (priority options)) (or_zero (delay options))
                            (or_zero (ttl options))) \<and>
          r = (if publisherClient q \<and> fault env (length (trace w) + 2) then None
               else Some (Id_reply (r_next_id (redis w))))"
    by blast
  from c a have
    s: "redis w' = snd (enqueue_script (now w) (redis w) (groupsKey qn) (groupKey qn gn) p gn
                            (or_zero (priority options)) (or_zero (delay options))
                            (or_zero (ttl options)))"
    and r: "r = Some (Id_reply (r_next_id (redis w)))"
    by auto
  from e r show "fst (add env q w qn gn data options) = Inr (Some (Id_reply (r_next_id (redis w))))"
    by simp
  from e s show "stored_content (redis (snd (snd (add env q w qn gn data options))))
                   (r_next_id (redis w)) = Some (p, gn)"
    by (simp add: enqueue_script_def Let_def stored_content_def)
  from e s show "stored_status (redis (snd (snd (add env q w qn gn data options))))
                   (r_next_id (redis w)) = Some Queued"
    by (simp add: enqueue_script_def Let_def stored_status_def)
qed

theorem subscriber_add_publishes_nothing_witness:
  "subscriber1 = fst (snd (Queue_init demo_env (new_Queue subscriber) world1)) \<and>
   \<not> publisherClient subscriber3 \<and> \<not> fault demo_env (length (trace world6)) \<and>
   \<not> fault demo_env (length (trace world6) + 1) \<and>
   getScriptSha (redisManager subscriber3) ''enqueue'' = Some (Digest ''-- enqueue'') \<and>
   r_scripts (redis world6) (Digest ''-- enqueue'') = Some Enqueue \<and>
   JSON_stringify demo_env True = Some ''true'' \<and>
   fst (add demo_env subscriber3 world6 ''emails'' ''notifications'' True no_options) =
     Inr (Some (Id_reply 1)) \<and>
   stored_content (redis world7) 1 = Some (''true'', ''notifications'') \<and>
   stored_status (redis world7) 1 = Some Queued \<and>
   filter is_publish (since world6 world7) = []"
proof -
  have h: "\<not> publisherClient subscriber3 \<and> \<not> fault demo_env (length (trace world6)) \<and>
      \<not> fault demo_env (length (trace world6) + 1) \<and>
      getScriptSha (redisManager subscriber3) ''enqueue'' = Some (Digest ''-- enqueue'') \<and>
      r_scripts (redis world6) (Digest ''-- enqueue'') = Some Enqueue \<and>
      JSON_stringify demo_env True = Some ''true''"
    by (simp add: push_eqs demo_defs getScriptSha_def)
  have n: "r_next_id (redis world6) = 1" by (simp add: push_eqs)
  have w: "snd (snd (add demo_env subscriber3 world6 ''emails'' ''notifications'' True no_options)) = world7"
    by (simp add: world7_def)
  note t = subscriber_add_publishes_nothing
    [of demo_env subscriber3 world6 "''emails''" "''notifications''" True no_options
        "\<lambda>j. Done None" "''qtask:newjob''" "JobInfo ''emails'' ''urgent''"
        "Digest ''-- enqueue''" "''true''"]
  let ?a = "add demo_env subscriber3 world6 ''emails'' ''notifications'' True no_options"
  from t h
  have "fst ?a = Inr (Some (Id_reply (r_next_id (redis world6))))"
    and "stored_content (redis (snd (snd ?a))) (r_next_id (redis world6)) =
           Some (''true'', ''notifications'')"
    and "stored_status (redis (snd (snd ?a))) (r_next_id (redis world6)) = Some Queued"
    and "filter is_publish (since world6 (snd (snd ?a))) = []"
    by blast+
  then have "fst ?a = Inr (Some (Id_reply 1))"
    and "stored_content (redis world7) 1 = Some (''true'', ''notifications'')"
    and "stored_status (redis world7) 1 = Some Queued"
    and "filter is_publish (since world6 world7) = []"
    unfolding n w by simp_all
  with h show ?thesis by (simp add: subscriber1_def)
qed

text \<open>
  The claim as stated fails. The subscriber instance admits job 1 and publishes
  nothing. The publisher then admits job 2 to another group of the same queue and
  publishes its notification; the subscriber's handler for that notification sweeps
  the whole queue, and the sweep hands job 1 to the consumer: a job added through the
  subscriber instance is picked up on the push path.
\<close>

theorem push_path_delivers_subscriber_job:
  "qtype subscriber3 = subscriber \<and>
   add demo_env subscriber3 world6 ''emails'' ''notifications'' True no_options =
     (Inr (Some (Id_reply 1)), subscriber4, world7) \<and>
   filter is_publish (since world6 world7) = [] \<and>
   filter is_publish (since world7 world8) = [PUBLISH ''qtask:newjob'' (JobInfo ''emails'' ''urgent'')] \<and>
   on_message demo_env subscriber4 world8 ''qtask:newjob'' (JobInfo ''emails'' ''urgent'') =
     (subscriber5, world9) \<and>
   map (\<lambda>(n, c). (n, handled c)) (consumers subscriber4) = [(''emails'', [])] \<and>
   map (\<lambda>(n, c). (n, handled c)) (consumers subscriber5) =
     [(''emails'', [\<lparr>job_id = 1, job_data = True, job_groupName = ''notifications''\<rparr>,
                   \<lparr>job_id = 2, job_data = False, job_groupName = ''urgent''\<rparr>])]"
proof -
  have "add demo_env subscriber3 world6 ''emails'' ''notifications'' True no_options =
          (fst (add demo_env subscriber3 world6 ''emails'' ''notifications'' True no_options),
           subscriber4, world7)"
    by (simp add: subscriber4_def world7_def)
  moreover have "fst (add demo_env subscriber3 world6 ''emails'' ''notifications'' True no_options) =
          Inr (Some (Id_reply 1))"
    by (simp add: push_eqs world_eqs io_defs demo_defs model_defs getScriptSha_def)
  moreover have "on_message demo_env subscriber4 world8 ''qtask:newjob'' (JobInfo ''emails'' ''urgent'') =
     (subscriber5, world9)"
    by (simp add: subscriber5_def world9_def)
  ultimately show ?thesis
    by (simp add: push_eqs since_def)
qed

text \<open>
  So is a job that the subscriber instance admits before it registers its processor:
  the sweep that \<^verbatim>\<open>process\<close> runs at once hands it to the consumer.
\<close>

lemma registration_sweep_delivers_subscriber_job:
  "map (\<lambda>(n, c). (n, handled c))
     (consumers (fst (snd (Queue_process demo_env subscriber1
        (snd (snd (add demo_env subscriber1 world2 ''emails'' ''notifications'' True no_options)))
        ''emails'' (\<lambda>j. Done None))))) =
     [(''emails'', [\<lparr>job_id = 1, job_data = True, job_groupName = ''notifications''\<rparr>])]"
  by (simp add: world_eqs io_defs demo_defs model_defs getScriptSha_def)

text \<open>
  And the periodic poll delivers it when neither of the two has done so before: one
  firing of the timer after the subscriber instance has admitted job 1.
\<close>

lemma poll_delivers_subscriber_job:
  "fst (timer_tick demo_env subscriber4 world7) = Resolved () \<and>
   map (\<lambda>(n, c). (n, handled c)) (consumers (fst (snd (timer_tick demo_env subscriber4 world7)))) =
     [(''emails'', [\<lparr>job_id = 1, job_data = True, job_groupName = ''notifications''\<rparr>])]"
  by (simp add: timer_tick_def push_eqs io_defs demo_defs model_defs getScriptSha_def)


end
